theory Spec2Isabelle
  imports Complex_Main "HOL-Library.Sublist" "HOL-Library.Log_Nat"
begin

section \<open>Python strings as used by app.py\<close>

text \<open>
  A serial byte is a \<^typ>\<open>char\<close> (eight bits). \<open>read_serial_data\<close> decodes every byte on
  its own with \<open>byte.decode('utf-8', errors='ignore')\<close>: a byte below 0x80 is the ASCII
  character of that code, any other single byte is an invalid or incomplete UTF-8
  sequence and decodes to the empty string. So the text the program handles is ASCII,
  and a Python \<open>str\<close> is a \<^typ>\<open>string\<close> here.
\<close>

definition decode_ignore :: "char \<Rightarrow> string" where
  "decode_ignore b = (if (of_char b :: nat) < 128 then [b] else [])"

text \<open>
  \<open>str.isspace\<close> on ASCII: TAB, LF, VT, FF, CR (9 to 13), the separators FS, GS, RS, US
  (28 to 31) and the space (32). \<open>str.strip()\<close> removes such characters from both ends.
\<close>

definition isspace :: "char \<Rightarrow> bool" where
  "isspace c = (let n = (of_char c :: nat) in (9 \<le> n \<and> n \<le> 13) \<or> (28 \<le> n \<and> n \<le> 32))"

definition strip :: "string \<Rightarrow> string" where
  "strip s = rev (dropWhile isspace (rev (dropWhile isspace s)))"

text \<open>\<open>str.lower()\<close> on ASCII: the letters A to Z move to a to z, nothing else changes.\<close>

definition lower_char :: "char \<Rightarrow> char" where
  "lower_char c = (let n = (of_char c :: nat) in if 65 \<le> n \<and> n \<le> 90 then char_of (n + 32) else c)"

definition lower :: "string \<Rightarrow> string" where
  "lower s = map lower_char s"

text \<open>
  Python's \<open>x in y\<close> on strings is \<^term>\<open>sublist x y\<close>: \<open>y\<close> is \<open>ps @ x @ ss\<close> for some \<open>ps\<close>
  and \<open>ss\<close>.
\<close>

definition LF :: char where "LF = CHR 0x0A"
definition CR :: char where "CR = CHR 0x0D"


section \<open>Python floats\<close>

text \<open>
  A Python float is an IEEE 754 double. A finite double is the rational number it
  denotes, and every operation on doubles is the exact operation on those numbers
  followed by \<open>round_double\<close>: rounding to the nearest double, a tie going to the even
  significand. The doubles around a number \<open>x\<close> with \<open>2 ^ e \<le> \<bar>x\<bar> < 2 ^ (e + 1)\<close> are the
  multiples of \<open>2 ^ (e - 52)\<close> (53 bits of significand), and those of \<open>2 ^ - 1074\<close> below
  \<open>2 ^ - 1022\<close> (the subnormal range). A result of magnitude \<open>2 ^ 1024\<close> or more is beyond
  the doubles.
\<close>

definition pow2 :: "int \<Rightarrow> rat" where
  "pow2 k = (if 0 \<le> k then 2 ^ nat k else 1 / 2 ^ nat (- k))"

text \<open>The exponent \<open>e\<close> of a positive number: \<open>2 ^ e \<le> x < 2 ^ (e + 1)\<close>.\<close>

definition ilog2 :: "rat \<Rightarrow> int" where
  "ilog2 x = (if 1 \<le> x then bitlen \<lfloor>x\<rfloor> - 1 else - bitlen (\<lceil>1 / x\<rceil> - 1))"

definition round_even :: "rat \<Rightarrow> int" where
  "round_even x =
     (let f = \<lfloor>x\<rfloor>; r = x - of_int f in
      if r < 1 / 2 then f else if 1 / 2 < r then f + 1 else if even f then f else f + 1)"

definition round_double :: "rat \<Rightarrow> rat" where
  "round_double x =
     (if x = 0 then 0
      else (let u = pow2 (max (ilog2 \<bar>x\<bar>) (- 1022) - 52)
            in sgn x * of_int (round_even (\<bar>x\<bar> / u)) * u))"

text \<open>
  The exceptions that the arithmetic of \<open>app.py\<close> can raise, with their \<open>str()\<close>. \<open>a / b\<close>
  on two Python integers is the correctly rounded quotient; it raises when \<open>b\<close> is zero
  and when the quotient is beyond the doubles.
\<close>

datatype py_error = OverflowError | ZeroDivisionError

definition str_of_error :: "py_error \<Rightarrow> string" where
  "str_of_error e =
     (case e of
        OverflowError \<Rightarrow> ''integer division result too large for a float''
      | ZeroDivisionError \<Rightarrow> ''division by zero'')"

definition int_truediv :: "int \<Rightarrow> int \<Rightarrow> py_error + rat" where
  "int_truediv a b =
     (if b = 0 then Inl ZeroDivisionError
      else (let r = round_double (of_int a / of_int b)
            in if 2 ^ 1024 \<le> \<bar>r\<bar> then Inl OverflowError else Inr r))"


section \<open>Clock, database rows and notifications\<close>

text \<open>
  \<open>datetime.now()\<close> has microsecond resolution: a reading of the clock is a number of
  microseconds. \<open>(t1 - t0).total_seconds()\<close> divides the difference in microseconds, an
  integer, by the integer \<open>10 ** 6\<close>: the correctly rounded quotient. The differences of
  two \<open>datetime\<close> values (years 1 to 9999) are far inside the doubles, so this division
  does not raise.
\<close>

type_synonym time = int

definition total_seconds :: "time \<Rightarrow> time \<Rightarrow> rat" where
  "total_seconds t1 t0 = round_double (of_int (t1 - t0) / 1000000)"

text \<open>
  The clock readings of one call of \<open>process_serial_message\<close>, in the order the code
  takes them: on entry (line 168, formatted \<open>%H:%M:%S\<close>), in the branch (lines 182, 196,
  220), the \<open>timestamp\<close> default of the inserted row, and in \<open>log_event\<close> (line 251).
\<close>

record clock =
  t_entry :: time
  t_branch :: time
  t_db :: time
  t_log :: time

text \<open>A row of \<open>IntrusionEvent\<close> (the \<open>id\<close> is the position in the table).\<close>

record intrusion_event =
  event_type :: string
  message :: string
  timestamp :: time
  duration :: "rat option"

text \<open>
  The text of a log entry. \<open>Motion_ended d\<close> is \<open>f'Motion ended{duration_text}'\<close>, where
  \<open>d\<close> is the duration the text shows with one decimal, if any.
\<close>

datatype log_message = Text string | Motion_ended "rat option"

text \<open>
  What \<open>socketio.emit\<close> publishes: one constructor per notification name, its arguments
  the fields of the dictionary in the order of the source. An optional field that a
  dictionary leaves out is \<open>None\<close>. A number, integer or double, is the rational number
  it denotes.
\<close>

datatype notification =
    Serial_status string "string option"
  | Serial_error string
  | Serial_data string time
  | Sensor_status string
  | Calibration_progress rat int bool "int option"
  | Motion_status string string "rat option option"
  | Motion_alert string time string
  | Log_update string log_message time "rat option"
  | Connection_status string


section \<open>Global variables\<close>

text \<open>
  The module's globals and the table of the database. \<open>ser\<close> is \<open>None\<close> or a port with
  its \<open>is_open\<close> flag.
\<close>

record globals =
  ser :: "bool option"
  serial_connected :: bool
  reading :: bool
  current_motion_start :: "time option"
  calibration_start_time :: "time option"
  calibration_dots_received :: int
  db :: "intrusion_event list"

definition total_calibration_time :: int where
  "total_calibration_time = 30"

definition initial_globals :: globals where
  "initial_globals = \<lparr> ser = None, serial_connected = False, reading = False,
     current_motion_start = None, calibration_start_time = None,
     calibration_dots_received = 0, db = [] \<rparr>"


section \<open>The functions of app.py\<close>

definition log_event :: "string \<Rightarrow> log_message \<Rightarrow> time \<Rightarrow> notification" where
  "log_event ty msg now = Log_update ty msg now None"

text \<open>UTF-8 bytes of the two symbols that open log texts in the source.\<close>

definition check_mark :: string where
  "check_mark = [CHR 0xE2, CHR 0x9C, CHR 0x85]"

definition rotating_light :: string where
  "rotating_light = [CHR 0xF0, CHR 0x9F, CHR 0x9A, CHR 0xA8]"

text \<open>
  \<open>update_calibration_progress\<close>. The quotient \<open>calibration_dots_received /
  total_calibration_time\<close> is a division of integers, which may raise; its product with
  100 is a product of doubles, which does not raise: beyond the doubles it is \<open>inf\<close>. The
  quotient is positive here, and \<open>min(100, x)\<close> is 100 for every \<open>x\<close> from 100 on, \<open>inf\<close>
  included, so the progress is the minimum of 100 and the rounded product.
\<close>

definition update_calibration_progress :: "globals \<Rightarrow> py_error + notification list" where
  "update_calibration_progress g =
     (if calibration_dots_received g > 0 then
        (case int_truediv (calibration_dots_received g) total_calibration_time of
           Inl e \<Rightarrow> Inl e
         | Inr q \<Rightarrow>
             Inr [Calibration_progress
                    (min 100 (round_double (q * 100)))
                    (max 0 (total_calibration_time - calibration_dots_received g))
                    True
                    (Some (calibration_dots_received g))])
      else Inr [])"

text \<open>
  The kinds of line that the chain of \<open>if\<close>/\<open>elif\<close> in \<open>process_serial_message\<close> tells
  apart, and the branch the chain takes for a message: the tests of lines 180, 187, 193
  and 216, in their order, on \<open>message.lower()\<close>.
\<close>

datatype event_kind =
  CalibrationStart | SensorActive | MotionStart | MotionEnd | GenericSystemMessage string

definition branch_taken :: "string \<Rightarrow> event_kind" where
  "branch_taken msg =
     (let message_lower = lower msg in
      if sublist ''calibrating sensor'' message_lower then CalibrationStart
      else if sublist ''sensor active'' message_lower then SensorActive
      else if sublist ''motion detected'' message_lower then MotionStart
      else if sublist ''motion ended'' message_lower then MotionEnd
      else GenericSystemMessage msg)"

definition process_serial_message :: "clock \<Rightarrow> string \<Rightarrow> globals \<Rightarrow> globals \<times> notification list" where
  "process_serial_message clk msg g =
     (let raw = Serial_data msg (t_entry clk);
          message_lower = lower msg
      in
      if sublist ''calibrating sensor'' message_lower then
        (g\<lparr>calibration_start_time := Some (t_branch clk), calibration_dots_received := 0\<rparr>,
         [raw, Sensor_status ''calibrating'',
          log_event ''system'' (Text ''Sensor calibration started...'') (t_log clk)])
      else if sublist ''sensor active'' message_lower then
        (g,
         [raw, Sensor_status ''active'', Calibration_progress 100 0 False None,
          log_event ''system''
            (Text (check_mark @ '' Sensor active and armed - Ready for detection'')) (t_log clk)])
      else if sublist ''motion detected'' message_lower then
        (g\<lparr>current_motion_start := Some (t_branch clk),
           db := db g @ [\<lparr>event_type = ''motion_start'', message = msg,
                          timestamp = t_db clk, duration = None\<rparr>]\<rparr>,
         [raw, Motion_status ''detected'' msg None,
          log_event ''motion_start'' (Text (rotating_light @ '' MOTION DETECTED!'')) (t_log clk),
          Motion_alert ''detected'' (t_entry clk) ''Motion detected!''])
      else if sublist ''motion ended'' message_lower then
        (let dur = (case current_motion_start g of
                      None \<Rightarrow> None
                    | Some t0 \<Rightarrow> Some (total_seconds (t_branch clk) t0))
         in
         (g\<lparr>current_motion_start := None,
            db := db g @ [\<lparr>event_type = ''motion_end'', message = msg,
                           timestamp = t_db clk, duration = dur\<rparr>]\<rparr>,
          [raw, Motion_status ''ended'' msg (Some dur),
           log_event ''motion_end''
             (Motion_ended (if dur = None \<or> dur = Some 0 then None else dur)) (t_log clk)]))
      else
        (g, [raw, log_event ''system'' (Text (''Arduino: '' @ msg)) (t_log clk)]))"

text \<open>
  One turn of the inner loop of \<open>read_serial_data\<close>: a byte is read, decoded and added to
  the buffer; a line terminator hands the stripped buffer to \<open>process_serial_message\<close>
  when it is not empty and clears the buffer; a full stop counts as a calibration dot
  when the buffer holds the marker. The result is the buffer and the globals after the
  turn, the notifications published, and the exception that the turn raised, if any: the
  counter is incremented before \<open>update_calibration_progress\<close> is called.
\<close>

definition read_byte ::
  "clock \<Rightarrow> char \<Rightarrow> string \<times> globals \<Rightarrow>
     ((string \<times> globals) \<times> notification list) \<times> py_error option" where
  "read_byte clk b bg =
     (let ch = decode_ignore b;
          buffer = fst bg @ ch;
          g = snd bg
      in
      if ch = [LF] \<or> ch = [CR] then
        (let line = strip buffer in
         if line \<noteq> [] then
           (let (g', out) = process_serial_message clk line g in ((([], g'), out), None))
         else ((([], g), []), None))
      else if ch = ''.'' \<and> sublist ''calibrating sensor'' buffer then
        (let g' = g\<lparr>calibration_dots_received := calibration_dots_received g + 1\<rparr>
         in case update_calibration_progress g' of
              Inr out \<Rightarrow> (((buffer, g'), out), None)
            | Inl e \<Rightarrow> (((buffer, g'), []), Some e))
      else (((buffer, g), []), None))"

text \<open>
  The inner loop \<open>while ser.in_waiting > 0\<close>: the bytes that are waiting are read one by
  one. Each byte comes with the clock readings of its turn. An exception ends the loop;
  it is returned with the clock readings of the turn that raised it.
\<close>

fun drain ::
  "(clock \<times> char) list \<Rightarrow> string \<times> globals \<Rightarrow>
     ((string \<times> globals) \<times> notification list) \<times> (clock \<times> py_error) option" where
  "drain [] bg = ((bg, []), None)"
| "drain ((clk, b) # rest) bg =
     (case read_byte clk b bg of
        ((bg', out), Some e) \<Rightarrow> ((bg', out), Some (clk, e))
      | ((bg', out), None) \<Rightarrow>
          (let ((bg'', out'), exc) = drain rest bg' in ((bg'', out @ out'), exc)))"

text \<open>
  The outer loop of \<open>read_serial_data\<close>: while \<open>reading and ser and ser.is_open\<close>, each
  wake-up drains the bytes that have arrived (a chunk, possibly empty). The list of
  chunks is what the port delivers while the loop runs. The handler of the loop catches
  an exception of the turn: if \<open>reading\<close>, it logs \<open>Serial read error\<close> with the text of the
  exception; then it leaves the loop.
\<close>

fun pump ::
  "(clock \<times> char) list list \<Rightarrow> string \<times> globals \<Rightarrow> (string \<times> globals) \<times> notification list" where
  "pump [] bg = (bg, [])"
| "pump (chunk # chunks) bg =
     (if reading (snd bg) \<and> ser (snd bg) = Some True then
        (case drain chunk bg of
           ((bg', out), Some (clk, e)) \<Rightarrow>
             (bg',
              out @ (if reading (snd bg')
                     then [log_event ''system''
                             (Text (''Serial read error: '' @ str_of_error e)) (t_log clk)]
                     else []))
         | ((bg', out), None) \<Rightarrow>
             (let (bg'', out') = pump chunks bg' in (bg'', out @ out')))
      else (bg, []))"

definition read_serial_data :: "(clock \<times> char) list list \<Rightarrow> globals \<Rightarrow> globals \<times> notification list" where
  "read_serial_data chunks g = (let (bg, out) = pump chunks ([], g) in (snd bg, out))"

text \<open>
  \<open>connect_serial\<close>. Opening the port either succeeds or raises; \<open>failure\<close> is the text of
  the exception, if any. The reading thread that a successful call starts is
  \<open>read_serial_data\<close> above, run on what the port delivers. The result is the new globals,
  the notifications and the returned flag.
\<close>

definition connect_serial ::
  "string \<Rightarrow> string option \<Rightarrow> time \<Rightarrow> globals \<Rightarrow> (globals \<times> notification list) \<times> bool" where
  "connect_serial port failure now g =
     (let g1 = (if ser g = Some True then g\<lparr>ser := Some False\<rparr> else g) in
      case failure of
        None \<Rightarrow>
          ((g1\<lparr>ser := Some True, serial_connected := True, reading := True,
               calibration_start_time := None, calibration_dots_received := 0\<rparr>,
            [Serial_status ''connected'' (Some port),
             log_event ''system'' (Text (''Connected to Arduino on '' @ port)) now]),
           True)
      | Some error_msg \<Rightarrow>
          ((g1,
            [Serial_error error_msg,
             log_event ''system'' (Text (''Connection failed: '' @ error_msg)) now]),
           False))"

definition disconnect_serial :: "time \<Rightarrow> globals \<Rightarrow> globals \<times> notification list" where
  "disconnect_serial now g =
     (let g1 = g\<lparr>reading := False, serial_connected := False,
                  calibration_start_time := None, calibration_dots_received := 0\<rparr>;
          g2 = (if ser g1 = Some True then g1\<lparr>ser := Some False\<rparr> else g1)
      in (g2,
          [Serial_status ''disconnected'' None,
           Calibration_progress 0 total_calibration_time False None,
           log_event ''system'' (Text ''Disconnected from Arduino'') now]))"


text \<open>
  Successive calls of \<open>process_serial_message\<close>, one for each line that the reader
  completes, each with its own clock readings.
\<close>

fun process_lines :: "(clock \<times> string) list \<Rightarrow> globals \<Rightarrow> globals \<times> notification list" where
  "process_lines [] g = (g, [])"
| "process_lines ((clk, msg) # rest) g =
     (let (g', out) = process_serial_message clk msg g;
          (g'', out') = process_lines rest g'
      in (g'', out @ out'))"


section \<open>The classifier as the specification words it\<close>

text \<open>
  Case-insensitive substring matching, written without \<open>lower()\<close> on the whole line: the
  marker sits at some position of the line, letter by letter up to case.
\<close>

fun ci_prefix :: "string \<Rightarrow> string \<Rightarrow> bool" where
  "ci_prefix [] ys = True"
| "ci_prefix (x # xs) [] = False"
| "ci_prefix (x # xs) (y # ys) = (lower_char x = lower_char y \<and> ci_prefix xs ys)"

fun ci_contains :: "string \<Rightarrow> string \<Rightarrow> bool" where
  "ci_contains xs [] = (xs = [])"
| "ci_contains xs (y # ys) = (ci_prefix xs (y # ys) \<or> ci_contains xs ys)"

text \<open>
  The ordered rule list of the classifier as section 4.3 of the specification gives it;
  the first rule that matches wins, and a line that matches none is a generic system
  message that keeps its text.
\<close>

definition spec_rules :: "(string \<times> event_kind) list" where
  "spec_rules = [(''calibrating sensor'', CalibrationStart), (''sensor active'', SensorActive),
            (''motion detected'', MotionStart), (''motion ended'', MotionEnd)]"

definition classify_spec :: "string \<Rightarrow> event_kind" where
  "classify_spec line =
     (case find (\<lambda>r. ci_contains (fst r) line) spec_rules of
        Some r \<Rightarrow> snd r
      | None \<Rightarrow> GenericSystemMessage line)"


section \<open>Concrete inputs\<close>

text \<open>The globals of a fresh process after a successful connection to COM10.\<close>

definition connected_globals :: globals where
  "connected_globals = fst (fst (connect_serial ''COM10'' None 0 initial_globals))"

definition clk0 :: clock where
  "clk0 = \<lparr>t_entry = 1000000, t_branch = 1000010, t_db = 1000020, t_log = 1000030\<rparr>"

definition clk1 :: clock where
  "clk1 = \<lparr>t_entry = 3500000, t_branch = 3500010, t_db = 3500020, t_log = 3500030\<rparr>"

definition clk2 :: clock where
  "clk2 = \<lparr>t_entry = 2000000, t_branch = 2000010, t_db = 2000020, t_log = 2000030\<rparr>"

definition line_active_motion :: string where
  "line_active_motion = ''sensor active; motion detected; motion ended''"

definition line_motion_both :: string where
  "line_motion_both = ''Motion Detected! (last: motion ended)''"


section \<open>Rounding to doubles\<close>

text \<open>
  \<open>ilog2\<close> is the exponent of its argument, rounding to the nearest integer and rounding
  to the nearest double are monotone, and the powers of two in the normal range are
  doubles.
\<close>

lemma pow2_powi: "pow2 k = 2 powi k"
  by (simp add: pow2_def power_int_def inverse_eq_divide power_one_over)

lemma pow2_pos [simp]: "0 < pow2 k"
  by (simp add: pow2_powi)

lemma pow2_add: "pow2 (a + b) = pow2 a * pow2 b"
  by (simp add: pow2_powi power_int_add)

lemma pow2_mono: "a \<le> b \<Longrightarrow> pow2 a \<le> pow2 b"
  by (simp add: pow2_powi power_int_increasing)

lemma pow2_less_cancel: "pow2 a < pow2 b \<Longrightarrow> a < b"
  using pow2_mono [of b a] by (cases "a < b") auto

lemma pow2_nat: "0 \<le> k \<Longrightarrow> pow2 k = 2 ^ nat k"
  by (simp add: pow2_def)

lemma pow2_neg: "0 \<le> k \<Longrightarrow> pow2 (- k) = 1 / 2 ^ nat k"
  by (cases "k = 0") (simp_all add: pow2_def)

lemma ilog2_bounds:
  assumes "0 < x"
  shows "pow2 (ilog2 x) \<le> x \<and> x < pow2 (ilog2 x + 1)"
proof (cases "1 \<le> x")
  case True
  define n where "n = \<lfloor>x\<rfloor>"
  from True have n: "0 < n" by (simp add: n_def)
  from bitlen_bounds [OF n] have lo: "2 ^ nat (bitlen n - 1) \<le> n" and hi: "n < 2 ^ nat (bitlen n)"
    by simp_all
  from n have b: "1 \<le> bitlen n"
    using bitlen_eq_zero_iff [of n] bitlen_nonneg [of n] by linarith
  have il: "ilog2 x = bitlen n - 1"
    using True by (simp add: ilog2_def n_def)
  have "(2 ^ nat (bitlen n - 1) :: rat) \<le> of_int n"
    using lo by (simp only: numeral_power_le_of_int_cancel_iff)
  also have "\<dots> \<le> x" by (simp add: n_def)
  finally have 1: "pow2 (ilog2 x) \<le> x"
    using b by (simp add: il pow2_nat)
  from hi have "n + 1 \<le> 2 ^ nat (bitlen n)" by simp
  then have "(of_int (n + 1) :: rat) \<le> 2 ^ nat (bitlen n)"
    by (simp only: of_int_le_numeral_power_cancel_iff)
  moreover have "x < of_int (n + 1)"
    unfolding n_def by linarith
  ultimately have "x < 2 ^ nat (bitlen n)"
    by (rule order_less_le_trans [rotated])
  then have 2: "x < pow2 (ilog2 x + 1)"
    using b by (simp add: il pow2_nat)
  from 1 2 show ?thesis ..
next
  case False
  define y where "y = 1 / x"
  define m where "m = \<lceil>y\<rceil>"
  from False assms have y: "1 < y" by (simp add: y_def)
  then have m: "0 < m - 1"
    unfolding m_def by (metis diff_gt_0_iff_gt less_ceiling_iff of_int_1)
  define j where "j = bitlen (m - 1)"
  from bitlen_bounds [OF m] have lo: "2 ^ nat (j - 1) \<le> m - 1" and hi: "m - 1 < 2 ^ nat j"
    by (simp_all add: j_def)
  from m have b: "1 \<le> j"
    using bitlen_eq_zero_iff [of "m - 1"] bitlen_nonneg [of "m - 1"] unfolding j_def by linarith
  have il: "ilog2 x = - j"
    using False by (simp add: ilog2_def y_def m_def j_def)
  from hi have "m \<le> 2 ^ nat j" by simp
  then have "(of_int m :: rat) \<le> 2 ^ nat j"
    by simp
  moreover have "y \<le> of_int m" by (simp add: m_def)
  ultimately have "y \<le> 2 ^ nat j" by (rule order_trans [rotated])
  then have 1: "pow2 (ilog2 x) \<le> x"
    using assms b by (simp add: il pow2_neg y_def field_simps)
  have "(2 ^ nat (j - 1) :: rat) \<le> of_int (m - 1)"
    using lo by (simp only: numeral_power_le_of_int_cancel_iff)
  moreover have "of_int (m - 1) < y"
    unfolding m_def by linarith
  ultimately have "2 ^ nat (j - 1) < y" by (rule order_le_less_trans)
  then have "x < 1 / 2 ^ nat (j - 1)"
    using assms by (simp add: y_def field_simps)
  moreover have "pow2 (ilog2 x + 1) = 1 / 2 ^ nat (j - 1)"
    using b pow2_neg [of "j - 1"] by (simp add: il)
  ultimately have 2: "x < pow2 (ilog2 x + 1)"
    by simp
  from 1 2 show ?thesis ..
qed

lemma ilog2_mono:
  assumes "0 < x" "x \<le> y"
  shows "ilog2 x \<le> ilog2 y"
proof -
  from assms have "0 < y" by simp
  from ilog2_bounds [OF assms(1)] ilog2_bounds [OF this] assms(2)
  have "pow2 (ilog2 x) < pow2 (ilog2 y + 1)" by linarith
  from pow2_less_cancel [OF this] show ?thesis by simp
qed

lemma round_even_cases: "round_even x = \<lfloor>x\<rfloor> \<or> round_even x = \<lfloor>x\<rfloor> + 1"
  by (simp add: round_even_def Let_def)

lemma round_even_of_int [simp]: "round_even (of_int n) = n"
  by (simp add: round_even_def)

lemma round_even_mono:
  assumes "x \<le> y"
  shows "round_even x \<le> round_even y"
proof (cases "\<lfloor>x\<rfloor> = \<lfloor>y\<rfloor>")
  case True
  with assms show ?thesis
    by (auto simp: round_even_def Let_def)
next
  case False
  with assms have "\<lfloor>x\<rfloor> + 1 \<le> \<lfloor>y\<rfloor>"
    using floor_mono [OF assms] by linarith
  then show ?thesis
    using round_even_cases [of x] round_even_cases [of y] by linarith
qed


lemma pow2_diff: "pow2 a / pow2 b = pow2 (a - b)"
proof -
  have "pow2 a = pow2 (a - b) * pow2 b"
    using pow2_add [of "a - b" b] by simp
  moreover have "pow2 b \<noteq> 0"
    using pow2_pos [of b] by linarith
  ultimately show ?thesis by simp
qed

lemma round_double_pos:
  "0 < x \<Longrightarrow> round_double x =
     of_int (round_even (x / pow2 (max (ilog2 x) (- 1022) - 52))) * pow2 (max (ilog2 x) (- 1022) - 52)"
  by (simp add: round_double_def Let_def)

lemma round_double_minus: "round_double (- x) = - round_double x"
  by (simp add: round_double_def Let_def)

lemma round_even_nonneg: "0 \<le> x \<Longrightarrow> 0 \<le> round_even x"
  using round_even_mono [of 0 x] round_even_of_int [of 0] by simp

lemma round_double_nonneg: "0 \<le> x \<Longrightarrow> 0 \<le> round_double x"
proof (cases "x = 0")
  case True
  then show ?thesis by (simp add: round_double_def)
next
  case False
  assume "0 \<le> x"
  with False have x: "0 < x" by simp
  have "0 \<le> round_even (x / pow2 (max (ilog2 x) (- 1022) - 52))"
    using x by (intro round_even_nonneg) (simp add: less_imp_le)
  then show ?thesis
    using x by (simp add: round_double_pos less_imp_le)
qed

lemma round_double_mono_pos:
  assumes "0 < x" "x \<le> y"
  shows "round_double x \<le> round_double y"
proof -
  from assms have y: "0 < y" by simp
  define ex where "ex = max (ilog2 x) (- 1022)"
  define ey where "ey = max (ilog2 y) (- 1022)"
  have le: "ex \<le> ey"
    using ilog2_mono [OF assms] by (simp add: ex_def ey_def max.coboundedI1)
  have rx: "round_double x = of_int (round_even (x / pow2 (ex - 52))) * pow2 (ex - 52)"
    using assms(1) by (simp add: round_double_pos ex_def)
  have ry: "round_double y = of_int (round_even (y / pow2 (ey - 52))) * pow2 (ey - 52)"
    using y by (simp add: round_double_pos ey_def)
  show ?thesis
  proof (cases "ex = ey")
    case True
    have "x / pow2 (ey - 52) \<le> y / pow2 (ey - 52)"
      using assms(2) by (simp add: divide_right_mono less_imp_le)
    then have "round_even (x / pow2 (ey - 52)) \<le> round_even (y / pow2 (ey - 52))"
      by (rule round_even_mono)
    then show ?thesis
      unfolding rx ry True by (simp add: mult_right_mono less_imp_le)
  next
    case False
    with le have lt: "ex + 1 \<le> ey" by simp
    then have ey: "ey = ilog2 y"
      by (simp add: ex_def ey_def max_def split: if_splits)
    have "x < pow2 (ilog2 x + 1)"
      using ilog2_bounds [OF assms(1)] ..
    also have "\<dots> \<le> pow2 (ex + 1)"
      by (rule pow2_mono) (simp add: ex_def)
    finally have "x / pow2 (ex - 52) < pow2 (ex + 1) / pow2 (ex - 52)"
      by (simp add: divide_strict_right_mono)
    then have "x / pow2 (ex - 52) \<le> of_int (2 ^ 53)"
      by (simp add: pow2_diff pow2_nat)
    then have "round_even (x / pow2 (ex - 52)) \<le> round_even (of_int (2 ^ 53))"
      by (rule round_even_mono)
    then have "round_even (x / pow2 (ex - 52)) \<le> 2 ^ 53"
      by (simp only: round_even_of_int)
    then have "(of_int (round_even (x / pow2 (ex - 52))) :: rat) \<le> pow2 53"
      by (simp add: pow2_nat)
    then have "round_double x \<le> pow2 53 * pow2 (ex - 52)"
      unfolding rx by (simp add: mult_right_mono less_imp_le)
    also have "\<dots> = pow2 (ex + 1)"
      using pow2_add [of 53 "ex - 52"] by (simp add: add.commute)
    also have "\<dots> \<le> pow2 ey"
      using lt by (rule pow2_mono)
    finally have up: "round_double x \<le> pow2 ey" .
    have "pow2 ey \<le> y"
      using ilog2_bounds [OF y] unfolding ey ..
    then have "pow2 ey / pow2 (ey - 52) \<le> y / pow2 (ey - 52)"
      by (simp add: divide_right_mono less_imp_le)
    then have "of_int (2 ^ 52) \<le> y / pow2 (ey - 52)"
      by (simp add: pow2_diff pow2_nat)
    then have "round_even (of_int (2 ^ 52)) \<le> round_even (y / pow2 (ey - 52))"
      by (rule round_even_mono)
    then have "2 ^ 52 \<le> round_even (y / pow2 (ey - 52))"
      by (simp only: round_even_of_int)
    then have "pow2 52 \<le> (of_int (round_even (y / pow2 (ey - 52))) :: rat)"
      by (simp add: pow2_nat)
    then have "pow2 52 * pow2 (ey - 52) \<le> round_double y"
      unfolding ry by (simp add: mult_right_mono less_imp_le)
    moreover have "pow2 52 * pow2 (ey - 52) = pow2 ey"
      using pow2_add [of 52 "ey - 52"] by simp
    ultimately show ?thesis
      using up by simp
  qed
qed

lemma round_double_mono:
  assumes "x \<le> y"
  shows "round_double x \<le> round_double y"
proof -
  consider "0 < x" | "x \<le> 0" "0 \<le> y" | "y < 0"
    using assms by linarith
  then show ?thesis
  proof cases
    case 1
    then show ?thesis using assms by (rule round_double_mono_pos)
  next
    case 2
    have "round_double x \<le> 0"
      using round_double_nonneg [of "- x"] 2(1) by (simp add: round_double_minus)
    also have "0 \<le> round_double y"
      using 2(2) by (rule round_double_nonneg)
    finally show ?thesis .
  next
    case 3
    then have "0 < - y" "- y \<le> - x" using assms by simp_all
    from round_double_mono_pos [OF this] show ?thesis
      by (simp add: round_double_minus)
  qed
qed

lemma ilog2_unique:
  assumes "pow2 k \<le> x" and "x < pow2 (k + 1)"
  shows "ilog2 x = k"
proof -
  have x: "0 < x"
    using pow2_pos [of k] assms(1) by linarith
  from ilog2_bounds [OF x] assms have "pow2 (ilog2 x) < pow2 (k + 1)" "pow2 k < pow2 (ilog2 x + 1)"
    by linarith+
  then have "ilog2 x < k + 1" "k < ilog2 x + 1"
    by (simp_all only: pow2_less_cancel)
  then show ?thesis by simp
qed

lemma round_double_pow2:
  assumes "- 1022 \<le> k"
  shows "round_double (pow2 k) = pow2 k"
proof -
  have "pow2 k < pow2 (k + 1)"
    using pow2_add [of k 1] pow2_pos [of k] by (simp add: pow2_nat)
  then have e: "ilog2 (pow2 k) = k"
    by (intro ilog2_unique) simp_all
  have "pow2 k / pow2 (k - 52) = of_int (2 ^ 52)"
    by (simp add: pow2_diff pow2_nat)
  then have "round_even (pow2 k / pow2 (k - 52)) = 2 ^ 52"
    by (simp only: round_even_of_int)
  moreover have "pow2 52 * pow2 (k - 52) = pow2 k"
    using pow2_add [of 52 "k - 52"] by simp
  ultimately show ?thesis
    using assms by (simp add: round_double_pos e max_def pow2_nat)
qed

lemma round_double_exact:
  "round_double 0 = 0" "round_double 1 = 1" "round_double 100 = 100"
  "round_double (1 / 1048576) = 1 / 1048576"
  by code_simp+

lemma int_truediv_30:
  assumes "0 < d" and "d \<le> 2 ^ 1024"
  shows "int_truediv d 30 = Inr (round_double (of_int d / 30))"
proof -
  have "(of_int d :: rat) \<le> 2 ^ 1024"
    using assms(2) by simp
  also have "(2 ^ 1024 :: rat) = 16 * 2 ^ 1020"
    by simp
  finally have "(of_int d :: rat) / 30 \<le> pow2 1020"
    by (simp add: pow2_nat)
  then have "round_double (of_int d / 30) \<le> round_double (pow2 1020)"
    by (rule round_double_mono)
  also have "\<dots> = pow2 1020"
    by (rule round_double_pow2) simp
  also have "\<dots> < 2 ^ 1024"
    by (simp add: pow2_nat)
  finally have "round_double (of_int d / 30) < 2 ^ 1024" .
  moreover have "0 \<le> round_double (of_int d / 30)"
    using assms(1) by (intro round_double_nonneg) simp
  ultimately show ?thesis
    by (simp add: int_truediv_def Let_def)
qed

lemma total_seconds_eq_0_iff: "total_seconds t1 t0 = 0 \<longleftrightarrow> t1 = t0"
proof
  assume z: "total_seconds t1 t0 = 0"
  show "t1 = t0"
  proof (rule ccontr)
    assume "t1 \<noteq> t0"
    then consider "1 \<le> t1 - t0" | "1 \<le> t0 - t1" by linarith
    then show False
    proof cases
      case 1
      then have "(1 :: rat) \<le> of_int (t1 - t0)"
        by (simp only: of_int_1_le_iff)
      then have "(1 / 1048576 :: rat) \<le> of_int (t1 - t0) / 1000000"
        by (simp add: field_simps)
      from round_double_mono [OF this] z show False
        by (simp add: total_seconds_def round_double_exact)
    next
      case 2
      then have "(1 :: rat) \<le> of_int (t0 - t1)"
        by (simp only: of_int_1_le_iff)
      then have "(1 / 1048576 :: rat) \<le> - (of_int (t1 - t0) / 1000000)"
        by (simp add: field_simps)
      from round_double_mono [OF this] z show False
        by (simp add: total_seconds_def round_double_exact round_double_minus)
    qed
  qed
next
  assume "t1 = t0"
  then show "total_seconds t1 t0 = 0"
    by (simp add: total_seconds_def round_double_def)
qed

section \<open>Case-insensitive matching\<close>

text \<open>
  Matching the lowered marker in the lowered line is matching the marker in the line up
  to the case of the letters.
\<close>

lemma ci_prefix_lower: "ci_prefix xs ys = prefix (lower xs) (lower ys)"
  by (induction xs ys rule: ci_prefix.induct) (simp_all add: lower_def)

lemma ci_contains_lower: "ci_contains xs ys = sublist (lower xs) (lower ys)"
  by (induction ys) (simp_all add: ci_prefix_lower sublist_Cons_right lower_def)

lemma ci_contains_iff:
  "ci_contains m l \<longleftrightarrow> (\<exists>ps vs ss. l = ps @ vs @ ss \<and> lower vs = lower m)"
proof
  assume "ci_contains m l"
  then obtain ps ss where "map lower_char l = ps @ map lower_char m @ ss"
    by (auto simp: ci_contains_lower sublist_def lower_def)
  then obtain us vs where l: "l = us @ vs" and vs: "map lower_char m @ ss = map lower_char vs"
    unfolding map_eq_append_conv by blast
  from vs obtain ws xs where "vs = ws @ xs" "map lower_char ws = map lower_char m"
    unfolding append_eq_map_conv by metis
  with l show "\<exists>ps vs ss. l = ps @ vs @ ss \<and> lower vs = lower m"
    unfolding lower_def by blast
next
  assume "\<exists>ps vs ss. l = ps @ vs @ ss \<and> lower vs = lower m"
  then obtain ps vs ss where "l = ps @ vs @ ss" "lower vs = lower m" by blast
  then have "lower l = lower ps @ lower m @ lower ss"
    by (simp add: lower_def)
  then show "ci_contains m l"
    by (auto simp: ci_contains_lower sublist_def)
qed

lemma markers_lower:
  "lower ''calibrating sensor'' = ''calibrating sensor''"
  "lower ''sensor active'' = ''sensor active''"
  "lower ''motion detected'' = ''motion detected''"
  "lower ''motion ended'' = ''motion ended''"
  by (simp_all add: lower_def lower_char_def)

lemma classify_spec_chain:
  "classify_spec msg =
     (if ci_contains ''calibrating sensor'' msg then CalibrationStart
      else if ci_contains ''sensor active'' msg then SensorActive
      else if ci_contains ''motion detected'' msg then MotionStart
      else if ci_contains ''motion ended'' msg then MotionEnd
      else GenericSystemMessage msg)"
  by (simp add: classify_spec_def spec_rules_def)

lemma branch_taken_classify_spec: "branch_taken msg = classify_spec msg"
  by (simp add: branch_taken_def classify_spec_chain ci_contains_lower markers_lower)

section \<open>The five branches of \<open>process_serial_message\<close>\<close>

lemma psm_calibration:
  "branch_taken msg = CalibrationStart \<Longrightarrow>
   process_serial_message clk msg g =
     (g\<lparr>calibration_start_time := Some (t_branch clk), calibration_dots_received := 0\<rparr>,
      [Serial_data msg (t_entry clk), Sensor_status ''calibrating'',
       Log_update ''system'' (Text ''Sensor calibration started...'') (t_log clk) None])"
  by (simp add: branch_taken_def process_serial_message_def log_event_def Let_def split: if_splits)

lemma psm_active:
  "branch_taken msg = SensorActive \<Longrightarrow>
   process_serial_message clk msg g =
     (g, [Serial_data msg (t_entry clk), Sensor_status ''active'',
          Calibration_progress 100 0 False None,
          Log_update ''system''
            (Text (check_mark @ '' Sensor active and armed - Ready for detection'')) (t_log clk) None])"
  by (simp add: branch_taken_def process_serial_message_def log_event_def Let_def split: if_splits)

lemma psm_motion_start:
  "branch_taken msg = MotionStart \<Longrightarrow>
   process_serial_message clk msg g =
     (g\<lparr>current_motion_start := Some (t_branch clk),
        db := db g @ [\<lparr>event_type = ''motion_start'', message = msg,
                       timestamp = t_db clk, duration = None\<rparr>]\<rparr>,
      [Serial_data msg (t_entry clk), Motion_status ''detected'' msg None,
       Log_update ''motion_start'' (Text (rotating_light @ '' MOTION DETECTED!'')) (t_log clk) None,
       Motion_alert ''detected'' (t_entry clk) ''Motion detected!''])"
  by (simp add: branch_taken_def process_serial_message_def log_event_def Let_def split: if_splits)

lemma psm_motion_end:
  "branch_taken msg = MotionEnd \<Longrightarrow>
   process_serial_message clk msg g =
     (g\<lparr>current_motion_start := None,
        db := db g @ [\<lparr>event_type = ''motion_end'', message = msg, timestamp = t_db clk,
                       duration = map_option (total_seconds (t_branch clk)) (current_motion_start g)\<rparr>]\<rparr>,
      [Serial_data msg (t_entry clk),
       Motion_status ''ended'' msg
         (Some (map_option (total_seconds (t_branch clk)) (current_motion_start g))),
       Log_update ''motion_end''
         (Motion_ended
            (if current_motion_start g = None \<or> current_motion_start g = Some (t_branch clk) then None
             else map_option (total_seconds (t_branch clk)) (current_motion_start g)))
         (t_log clk) None])"
  by (cases "current_motion_start g")
     (auto simp add: branch_taken_def process_serial_message_def log_event_def Let_def
        total_seconds_eq_0_iff split: if_splits)

lemma psm_generic:
  "branch_taken msg = GenericSystemMessage l \<Longrightarrow>
   process_serial_message clk msg g =
     (g, [Serial_data msg (t_entry clk),
          Log_update ''system'' (Text (''Arduino: '' @ msg)) (t_log clk) None])"
  by (simp add: branch_taken_def process_serial_message_def log_event_def Let_def split: if_splits)

lemmas psm_branch = psm_calibration psm_active psm_motion_start psm_motion_end psm_generic


lemmas str_eval = lower_def lower_char_def char_of_def bit_0 sublist_Cons_right

section \<open>Classification\<close>

text \<open>
  C1 (amended). The branch that \<open>process_serial_message\<close> takes is the first rule of the
  ordered list that matches the line as a case-insensitive substring: "calibrating
  sensor" gives CalibrationStart, otherwise "sensor active" SensorActive, otherwise
  "motion detected" MotionStart, otherwise "motion ended" MotionEnd, otherwise
  GenericSystemMessage with the full text of the line; the notifications published are
  those of that one kind. A line that contains both "motion detected" and "motion ended",
  and neither "calibrating sensor" nor "sensor active", is MotionStart and adds exactly
  one row, a motion_start, to the table.
\<close>

theorem first_match_classification:
  "branch_taken msg = classify_spec msg \<and>
   classify_spec msg =
     (if ci_contains ''calibrating sensor'' msg then CalibrationStart
      else if ci_contains ''sensor active'' msg then SensorActive
      else if ci_contains ''motion detected'' msg then MotionStart
      else if ci_contains ''motion ended'' msg then MotionEnd
      else GenericSystemMessage msg) \<and>
   snd (process_serial_message clk msg g) =
     Serial_data msg (t_entry clk) #
     (case classify_spec msg of
        CalibrationStart \<Rightarrow>
          [Sensor_status ''calibrating'',
           Log_update ''system'' (Text ''Sensor calibration started...'') (t_log clk) None]
      | SensorActive \<Rightarrow>
          [Sensor_status ''active'', Calibration_progress 100 0 False None,
           Log_update ''system''
             (Text (check_mark @ '' Sensor active and armed - Ready for detection''))
             (t_log clk) None]
      | MotionStart \<Rightarrow>
          [Motion_status ''detected'' msg None,
           Log_update ''motion_start'' (Text (rotating_light @ '' MOTION DETECTED!''))
             (t_log clk) None,
           Motion_alert ''detected'' (t_entry clk) ''Motion detected!'']
      | MotionEnd \<Rightarrow>
          [Motion_status ''ended'' msg
             (Some (map_option (total_seconds (t_branch clk)) (current_motion_start g))),
           Log_update ''motion_end''
             (Motion_ended
                (if current_motion_start g = None \<or> current_motion_start g = Some (t_branch clk)
                 then None
                 else map_option (total_seconds (t_branch clk)) (current_motion_start g)))
             (t_log clk) None]
      | GenericSystemMessage line \<Rightarrow>
          [Log_update ''system'' (Text (''Arduino: '' @ line)) (t_log clk) None]) \<and>
   (ci_contains ''motion detected'' msg \<and> ci_contains ''motion ended'' msg \<and>
    \<not> ci_contains ''calibrating sensor'' msg \<and> \<not> ci_contains ''sensor active'' msg \<longrightarrow>
      classify_spec msg = MotionStart \<and>
      db (fst (process_serial_message clk msg g)) =
        db g @ [\<lparr>event_type = ''motion_start'', message = msg,
                     timestamp = t_db clk, duration = None\<rparr>])"
proof -
  have eq: "branch_taken msg = classify_spec msg"
    by (rule branch_taken_classify_spec)
  have out: "snd (process_serial_message clk msg g) = Serial_data msg (t_entry clk) #
     (case classify_spec msg of
        CalibrationStart \<Rightarrow>
          [Sensor_status ''calibrating'',
           Log_update ''system'' (Text ''Sensor calibration started...'') (t_log clk) None]
      | SensorActive \<Rightarrow>
          [Sensor_status ''active'', Calibration_progress 100 0 False None,
           Log_update ''system''
             (Text (check_mark @ '' Sensor active and armed - Ready for detection''))
             (t_log clk) None]
      | MotionStart \<Rightarrow>
          [Motion_status ''detected'' msg None,
           Log_update ''motion_start'' (Text (rotating_light @ '' MOTION DETECTED!''))
             (t_log clk) None,
           Motion_alert ''detected'' (t_entry clk) ''Motion detected!'']
      | MotionEnd \<Rightarrow>
          [Motion_status ''ended'' msg
             (Some (map_option (total_seconds (t_branch clk)) (current_motion_start g))),
           Log_update ''motion_end''
             (Motion_ended
                (if current_motion_start g = None \<or> current_motion_start g = Some (t_branch clk)
                 then None
                 else map_option (total_seconds (t_branch clk)) (current_motion_start g)))
             (t_log clk) None]
      | GenericSystemMessage line \<Rightarrow>
          [Log_update ''system'' (Text (''Arduino: '' @ line)) (t_log clk) None])"
  proof (cases "branch_taken msg")
    case (GenericSystemMessage l)
    then have "l = msg"
      by (simp add: branch_taken_def Let_def split: if_splits)
    with GenericSystemMessage show ?thesis
      using psm_generic [of msg l clk g] eq by simp
  qed (use eq in \<open>simp_all add: psm_branch\<close>)
  have both: "classify_spec msg = MotionStart \<and>
      db (fst (process_serial_message clk msg g)) =
        db g @ [\<lparr>event_type = ''motion_start'', message = msg,
                     timestamp = t_db clk, duration = None\<rparr>]"
    if "ci_contains ''motion detected'' msg" "\<not> ci_contains ''calibrating sensor'' msg"
       "\<not> ci_contains ''sensor active'' msg"
  proof -
    from that have c: "classify_spec msg = MotionStart"
      by (simp add: classify_spec_chain)
    then have "branch_taken msg = MotionStart"
      using eq by simp
    then show ?thesis
      using c by (simp add: psm_motion_start)
  qed
  show ?thesis
    using eq out both classify_spec_chain [of msg] by blast
qed

text \<open>
  The line "Motion Detected! (last: motion ended)" holds both motion markers and neither
  of the first two: it is MotionStart.
\<close>

theorem first_match_classification_witness:
  "ci_contains ''motion detected'' line_motion_both \<and>
   ci_contains ''motion ended'' line_motion_both \<and>
   \<not> ci_contains ''calibrating sensor'' line_motion_both \<and>
   \<not> ci_contains ''sensor active'' line_motion_both \<and>
   branch_taken line_motion_both = MotionStart \<and>
   db (fst (process_serial_message clk0 line_motion_both initial_globals)) =
     [\<lparr>event_type = ''motion_start'', message = line_motion_both,
       timestamp = 1000020, duration = None\<rparr>]"
proof -
  have h: "ci_contains ''motion detected'' line_motion_both \<and>
      ci_contains ''motion ended'' line_motion_both \<and>
      \<not> ci_contains ''calibrating sensor'' line_motion_both \<and>
      \<not> ci_contains ''sensor active'' line_motion_both"
    by (simp add: line_motion_both_def lower_char_def char_of_def bit_0)
  then show ?thesis
    using first_match_classification [of line_motion_both clk0 initial_globals]
    by (simp add: initial_globals_def clk0_def)
qed

text \<open>
  C1 as stated fails: the line "sensor active; motion detected; motion ended" contains
  both motion markers, and the second rule classifies it as SensorActive; no motion
  notification is published and no row is added.
\<close>

theorem both_markers_counterexample:
  "sublist ''motion detected'' (lower line_active_motion) \<and>
   sublist ''motion ended'' (lower line_active_motion) \<and>
   branch_taken line_active_motion = SensorActive \<and>
   process_serial_message clk0 line_active_motion initial_globals =
     (initial_globals,
      [Serial_data line_active_motion 1000000, Sensor_status ''active'',
       Calibration_progress 100 0 False None,
       Log_update ''system''
         (Text (check_mark @ '' Sensor active and armed - Ready for detection'')) 1000030 None])"
proof -
  have b: "branch_taken line_active_motion = SensorActive"
    by (simp add: branch_taken_def line_active_motion_def str_eval)
  have "sublist ''motion detected'' (lower line_active_motion)"
    by (simp add: line_active_motion_def str_eval)
  moreover have "sublist ''motion ended'' (lower line_active_motion)"
    by (simp add: line_active_motion_def str_eval)
  ultimately show ?thesis
    using b by (simp add: psm_active clk0_def)
qed


section \<open>Motion episodes\<close>

text \<open>
  Only the two motion branches write \<open>current_motion_start\<close>.
\<close>

lemma process_lines_keeps_motion_start:
  "\<forall>x\<in>set ls. branch_taken (snd x) \<noteq> MotionStart \<and> branch_taken (snd x) \<noteq> MotionEnd \<Longrightarrow>
   current_motion_start (fst (process_lines ls g)) = current_motion_start g"
proof (induction ls arbitrary: g)
  case Nil
  then show ?case by simp
next
  case (Cons x ls)
  obtain clk msg where x: "x = (clk, msg)" by (cases x)
  from Cons.prems x have nb: "branch_taken msg \<noteq> MotionStart" "branch_taken msg \<noteq> MotionEnd"
    by simp_all
  then have "current_motion_start (fst (process_serial_message clk msg g)) = current_motion_start g"
    by (cases "branch_taken msg") (simp_all add: psm_branch)
  moreover have "current_motion_start (fst (process_lines ls (fst (process_serial_message clk msg g))))
      = current_motion_start (fst (process_serial_message clk msg g))"
    using Cons.prems by (intro Cons.IH) simp
  ultimately show ?case
    using x by (simp add: split_beta)
qed

lemma process_lines_after_start:
  assumes "branch_taken m0 = MotionStart"
    and "\<forall>x\<in>set mid. branch_taken (snd x) \<noteq> MotionStart \<and> branch_taken (snd x) \<noteq> MotionEnd"
  shows "current_motion_start (fst (process_lines ((c0, m0) # mid) g)) = Some (t_branch c0)"
  using assms process_lines_keeps_motion_start [of mid "fst (process_serial_message c0 m0 g)"]
  by (simp add: split_beta psm_motion_start)

text \<open>
  C2 (amended). When a line is classified MotionStart with the clock at T0 and the next
  motion line is a MotionEnd with the clock at T1 (lines of the other three kinds may lie
  between, no further MotionStart), the motion_status notification and the motion_end
  row carry the duration T1 - T0 in seconds, and \<open>current_motion_start\<close> is cleared. When
  a line is classified MotionEnd and no start is recorded, notification and row carry no
  duration; the call returns as any other. Clock readings are microseconds, the duration
  their difference divided by a million as Python's division of integers rounds it to
  a double.
\<close>

theorem motion_end_duration:
  assumes "branch_taken m1 = MotionEnd"
  shows "(branch_taken m0 = MotionStart \<and>
          (\<forall>x\<in>set mid. branch_taken (snd x) \<noteq> MotionStart \<and> branch_taken (snd x) \<noteq> MotionEnd) \<longrightarrow>
          process_serial_message c1 m1 (fst (process_lines ((c0, m0) # mid) g)) =
            ((fst (process_lines ((c0, m0) # mid) g))
               \<lparr>current_motion_start := None,
                db := db (fst (process_lines ((c0, m0) # mid) g)) @
                  [\<lparr>event_type = ''motion_end'', message = m1, timestamp = t_db c1,
                    duration = Some (round_double (of_int (t_branch c1 - t_branch c0) / 1000000))\<rparr>]\<rparr>,
             [Serial_data m1 (t_entry c1),
              Motion_status ''ended'' m1 (Some (Some (round_double (of_int (t_branch c1 - t_branch c0) / 1000000)))),
              Log_update ''motion_end''
                (Motion_ended (if t_branch c1 = t_branch c0 then None
                               else Some (round_double (of_int (t_branch c1 - t_branch c0) / 1000000))))
                (t_log c1) None])) \<and>
         (current_motion_start g = None \<longrightarrow>
          process_serial_message c1 m1 g =
            (g\<lparr>current_motion_start := None,
               db := db g @ [\<lparr>event_type = ''motion_end'', message = m1, timestamp = t_db c1,
                              duration = None\<rparr>]\<rparr>,
             [Serial_data m1 (t_entry c1), Motion_status ''ended'' m1 (Some None),
              Log_update ''motion_end'' (Motion_ended None) (t_log c1) None]))"
proof (intro conjI impI)
  assume h: "branch_taken m0 = MotionStart \<and>
    (\<forall>x\<in>set mid. branch_taken (snd x) \<noteq> MotionStart \<and> branch_taken (snd x) \<noteq> MotionEnd)"
  define g1 where "g1 = fst (process_lines ((c0, m0) # mid) g)"
  from h have "current_motion_start g1 = Some (t_branch c0)"
    unfolding g1_def by (intro process_lines_after_start) simp_all
  then show "process_serial_message c1 m1 (fst (process_lines ((c0, m0) # mid) g)) =
            ((fst (process_lines ((c0, m0) # mid) g))
               \<lparr>current_motion_start := None,
                db := db (fst (process_lines ((c0, m0) # mid) g)) @
                  [\<lparr>event_type = ''motion_end'', message = m1, timestamp = t_db c1,
                    duration = Some (round_double (of_int (t_branch c1 - t_branch c0) / 1000000))\<rparr>]\<rparr>,
             [Serial_data m1 (t_entry c1),
              Motion_status ''ended'' m1 (Some (Some (round_double (of_int (t_branch c1 - t_branch c0) / 1000000)))),
              Log_update ''motion_end''
                (Motion_ended (if t_branch c1 = t_branch c0 then None
                               else Some (round_double (of_int (t_branch c1 - t_branch c0) / 1000000))))
                (t_log c1) None])"
    unfolding g1_def [symmetric] using assms
    by (auto simp add: psm_motion_end total_seconds_def)
next
  assume "current_motion_start g = None"
  then show "process_serial_message c1 m1 g =
            (g\<lparr>current_motion_start := None,
               db := db g @ [\<lparr>event_type = ''motion_end'', message = m1, timestamp = t_db c1,
                              duration = None\<rparr>]\<rparr>,
             [Serial_data m1 (t_entry c1), Motion_status ''ended'' m1 (Some None),
              Log_update ''motion_end'' (Motion_ended None) (t_log c1) None])"
    using assms by (simp add: psm_motion_end)
qed

text \<open>The branches of three sample lines, and a duration that is a double.\<close>

lemma round_double_five_halves: "round_double (5 / 2) = 5 / 2"
  by code_simp


lemma bt_examples:
  "branch_taken ''Motion detected!'' = MotionStart"
  "branch_taken ''Motion ended!'' = MotionEnd"
  "branch_taken ''PIR ready'' = GenericSystemMessage ''PIR ready''"
  by (simp_all add: branch_taken_def str_eval)

text \<open>
  A start at 1.00001 s, a system line, an end at 3.50001 s: the duration is 2.5 s; the
  same end on fresh globals has none.
\<close>

theorem motion_end_duration_witness:
  "process_serial_message clk1 ''Motion ended!''
     (fst (process_lines [(clk0, ''Motion detected!''), (clk0, ''PIR ready'')] initial_globals)) =
     (initial_globals
        \<lparr>db := [\<lparr>event_type = ''motion_start'', message = ''Motion detected!'',
                 timestamp = 1000020, duration = None\<rparr>,
                \<lparr>event_type = ''motion_end'', message = ''Motion ended!'',
                 timestamp = 3500020, duration = Some (5 / 2)\<rparr>]\<rparr>,
      [Serial_data ''Motion ended!'' 3500000,
       Motion_status ''ended'' ''Motion ended!'' (Some (Some (5 / 2))),
       Log_update ''motion_end'' (Motion_ended (Some (5 / 2))) 3500030 None]) \<and>
   process_serial_message clk1 ''Motion ended!'' initial_globals =
     (initial_globals
        \<lparr>db := [\<lparr>event_type = ''motion_end'', message = ''Motion ended!'',
                 timestamp = 3500020, duration = None\<rparr>]\<rparr>,
      [Serial_data ''Motion ended!'' 3500000,
       Motion_status ''ended'' ''Motion ended!'' (Some None),
       Log_update ''motion_end'' (Motion_ended None) 3500030 None])"
proof -
  have g1: "fst (process_lines [(clk0, ''Motion detected!''), (clk0, ''PIR ready'')] initial_globals) =
      initial_globals\<lparr>current_motion_start := Some 1000010,
        db := [\<lparr>event_type = ''motion_start'', message = ''Motion detected!'',
                timestamp = 1000020, duration = None\<rparr>]\<rparr>"
    by (simp add: psm_motion_start [OF bt_examples(1)] psm_generic [OF bt_examples(3)]
        clk0_def initial_globals_def)
  note t = motion_end_duration [OF bt_examples(2), of "''Motion detected!''"
      "[(clk0, ''PIR ready'')]" clk1 clk0 initial_globals]
  have p1: "branch_taken ''Motion detected!'' = MotionStart \<and>
      (\<forall>x\<in>set [(clk0, ''PIR ready'')].
         branch_taken (snd x) \<noteq> MotionStart \<and> branch_taken (snd x) \<noteq> MotionEnd)"
    by (simp add: bt_examples)
  have p2: "current_motion_start initial_globals = None"
    by (simp add: initial_globals_def)
  note q1 = t [THEN conjunct1, THEN mp, OF p1, unfolded g1]
  note q2 = t [THEN conjunct2, THEN mp, OF p2]
  show ?thesis
    unfolding g1 using q1 q2
    by (simp add: clk0_def clk1_def initial_globals_def round_double_five_halves)
qed

text \<open>
  C2 as stated fails when a second MotionStart comes before the end: the later start
  replaces the recorded one. Starts at 1.00001 s and 2.00001 s and the next MotionEnd at
  3.50001 s give the duration 1.5 s, not the 2.5 s since the first start.
\<close>

theorem restarted_motion_counterexample:
  "branch_taken ''Motion detected!'' = MotionStart \<and>
   branch_taken ''Motion ended!'' = MotionEnd \<and>
   total_seconds (t_branch clk1) (t_branch clk0) = 5 / 2 \<and>
   process_serial_message clk1 ''Motion ended!''
     (fst (process_lines [(clk0, ''Motion detected!''), (clk2, ''Motion detected!'')]
        initial_globals)) =
     (initial_globals
        \<lparr>db := [\<lparr>event_type = ''motion_start'', message = ''Motion detected!'',
                 timestamp = 1000020, duration = None\<rparr>,
                \<lparr>event_type = ''motion_start'', message = ''Motion detected!'',
                 timestamp = 2000020, duration = None\<rparr>,
                \<lparr>event_type = ''motion_end'', message = ''Motion ended!'',
                 timestamp = 3500020, duration = Some (3 / 2)\<rparr>]\<rparr>,
      [Serial_data ''Motion ended!'' 3500000,
       Motion_status ''ended'' ''Motion ended!'' (Some (Some (3 / 2))),
       Log_update ''motion_end'' (Motion_ended (Some (3 / 2))) 3500030 None])"
  by code_simp

section \<open>The event sink\<close>

text \<open>
  C10. \<open>process_serial_message\<close> appends a row to the table exactly when the line is
  classified MotionStart or MotionEnd, and then exactly one; for CalibrationStart,
  SensorActive and GenericSystemMessage the table is unchanged.
\<close>

theorem sink_append_iff_motion:
  "db (fst (process_serial_message clk msg g)) =
     (case branch_taken msg of
        MotionStart \<Rightarrow>
          db g @ [\<lparr>event_type = ''motion_start'', message = msg, timestamp = t_db clk,
                   duration = None\<rparr>]
      | MotionEnd \<Rightarrow>
          db g @ [\<lparr>event_type = ''motion_end'', message = msg, timestamp = t_db clk,
                   duration = map_option (total_seconds (t_branch clk)) (current_motion_start g)\<rparr>]
      | CalibrationStart \<Rightarrow> db g
      | SensorActive \<Rightarrow> db g
      | GenericSystemMessage line \<Rightarrow> db g) \<and>
   (db (fst (process_serial_message clk msg g)) \<noteq> db g) =
     (branch_taken msg = MotionStart \<or> branch_taken msg = MotionEnd)"
  by (cases "branch_taken msg") (simp_all add: psm_branch)

section \<open>One byte of the reader\<close>

text \<open>The three cases of \<open>read_byte\<close>: a terminator, a counted dot, any other byte.\<close>

lemma decode_ignore_ascii:
  "decode_ignore LF = [LF]" "decode_ignore CR = [CR]" "decode_ignore CHR ''.'' = ''.''"
  by (simp_all add: decode_ignore_def LF_def CR_def)

lemma decode_ignore_cases: "decode_ignore b = [b] \<or> decode_ignore b = []"
  by (simp add: decode_ignore_def)

lemma decode_ignore_eq_single: "decode_ignore b = [c] \<longleftrightarrow> b = c \<and> (of_char b :: nat) < 128"
  by (auto simp: decode_ignore_def)

lemma read_byte_terminator:
  assumes "b = LF \<or> b = CR"
  shows "read_byte clk b (buf, g) =
     (if strip (buf @ [b]) \<noteq> []
      then ((([], fst (process_serial_message clk (strip (buf @ [b])) g)),
             snd (process_serial_message clk (strip (buf @ [b])) g)), None)
      else ((([], g), []), None))"
  using assms by (auto simp: read_byte_def decode_ignore_ascii Let_def split_beta)

lemma read_byte_dot:
  assumes "sublist ''calibrating sensor'' (buf @ ''.'')"
  shows "read_byte clk CHR ''.'' (buf, g) =
     (case update_calibration_progress
             (g\<lparr>calibration_dots_received := calibration_dots_received g + 1\<rparr>) of
        Inr out \<Rightarrow>
          (((buf @ ''.'', g\<lparr>calibration_dots_received := calibration_dots_received g + 1\<rparr>),
            out), None)
      | Inl e \<Rightarrow>
          (((buf @ ''.'', g\<lparr>calibration_dots_received := calibration_dots_received g + 1\<rparr>),
            []), Some e))"
  using assms by (simp add: read_byte_def decode_ignore_ascii Let_def LF_def CR_def)

lemma read_byte_other:
  assumes "b \<noteq> LF" "b \<noteq> CR" "b \<noteq> CHR ''.'' \<or> \<not> sublist ''calibrating sensor'' (buf @ ''.'')"
  shows "read_byte clk b (buf, g) = (((buf @ decode_ignore b, g), []), None)"
  using assms decode_ignore_cases [of b] by (auto simp: read_byte_def Let_def)

lemma branch_taken_Nil: "branch_taken [] = GenericSystemMessage []"
  by (simp add: branch_taken_def lower_def)

lemma psm_dots:
  "calibration_dots_received (fst (process_serial_message clk msg g)) =
     (if branch_taken msg = CalibrationStart then 0 else calibration_dots_received g)"
  by (cases "branch_taken msg") (simp_all add: psm_branch)

lemma psm_start_time:
  "calibration_start_time (fst (process_serial_message clk msg g)) =
     (if branch_taken msg = CalibrationStart then Some (t_branch clk) else calibration_start_time g)"
  by (cases "branch_taken msg") (simp_all add: psm_branch)

section \<open>The calibration counter\<close>

text \<open>
  C3 (amended). In the reader loop \<open>calibration_dots_received\<close> is set to 0 exactly when a
  line is classified CalibrationStart (which also records \<open>calibration_start_time\<close>), and
  it is incremented exactly when a full stop arrives while the buffer in progress holds
  the lower-case marker "calibrating sensor", whatever \<open>calibration_start_time\<close> is; every
  other byte and every other line leave it unchanged.
\<close>

theorem dots_reset_and_increment:
  "calibration_dots_received (fst (process_serial_message clk msg g)) =
     (if branch_taken msg = CalibrationStart then 0 else calibration_dots_received g) \<and>
   calibration_start_time (fst (process_serial_message clk msg g)) =
     (if branch_taken msg = CalibrationStart then Some (t_branch clk) else calibration_start_time g) \<and>
   calibration_dots_received (snd (fst (fst (read_byte clk b (buf, g))))) =
     (if b = LF \<or> b = CR then
        (if branch_taken (strip (buf @ [b])) = CalibrationStart then 0
         else calibration_dots_received g)
      else if b = CHR ''.'' \<and> sublist ''calibrating sensor'' (buf @ ''.'') then
        calibration_dots_received g + 1
      else calibration_dots_received g)"
proof -
  have "calibration_dots_received (snd (fst (fst (read_byte clk b (buf, g))))) =
     (if b = LF \<or> b = CR then
        (if branch_taken (strip (buf @ [b])) = CalibrationStart then 0
         else calibration_dots_received g)
      else if b = CHR ''.'' \<and> sublist ''calibrating sensor'' (buf @ ''.'') then
        calibration_dots_received g + 1
      else calibration_dots_received g)"
  proof (cases "b = LF \<or> b = CR")
    case True
    then show ?thesis
      by (simp add: read_byte_terminator psm_dots branch_taken_Nil)
  next
    case False
    then show ?thesis
      by (cases "b = CHR ''.'' \<and> sublist ''calibrating sensor'' (buf @ ''.'')")
         (auto simp: read_byte_dot read_byte_other split: sum.splits)
  qed
  then show ?thesis
    by (simp add: psm_dots psm_start_time)
qed

text \<open>The globals after the first successful connection.\<close>

lemma connected_globals_eq:
  "connected_globals = \<lparr>ser = Some True, serial_connected = True, reading = True,
     current_motion_start = None, calibration_start_time = None,
     calibration_dots_received = 0, db = []\<rparr>"
  by (simp add: connected_globals_def connect_serial_def initial_globals_def)

text \<open>
  C3 as stated fails: on a fresh connection \<open>calibration_start_time\<close> is absent, and the
  bytes "calibrating sensor." count one dot and publish its progress while it still is.
\<close>

theorem dot_counted_without_start_counterexample:
  "calibration_start_time connected_globals = None \<and>
   read_serial_data [map (Pair clk0) ''calibrating sensor.''] connected_globals =
     (connected_globals\<lparr>calibration_dots_received := 1\<rparr>,
      [Calibration_progress (7505999378950827 / 2251799813685248) 29 True (Some 1)])"
  by code_simp

text \<open>
  The counter starts at 0 and is never negative: every function that writes it keeps it
  so.
\<close>

lemma dots_never_negative:
  "0 \<le> calibration_dots_received initial_globals"
  "0 \<le> calibration_dots_received (fst (fst (connect_serial port failure now g))) \<or>
     calibration_dots_received (fst (fst (connect_serial port failure now g))) =
       calibration_dots_received g"
  "0 \<le> calibration_dots_received (fst (disconnect_serial now g))"
  "0 \<le> calibration_dots_received g \<Longrightarrow>
     0 \<le> calibration_dots_received (fst (process_serial_message clk msg g))"
  "0 \<le> calibration_dots_received g \<Longrightarrow>
     0 \<le> calibration_dots_received (snd (fst (fst (read_byte clk b (buf, g)))))"
proof -
  show "0 \<le> calibration_dots_received initial_globals"
    by (simp add: initial_globals_def)
  show "0 \<le> calibration_dots_received (fst (fst (connect_serial port failure now g))) \<or>
     calibration_dots_received (fst (fst (connect_serial port failure now g))) =
       calibration_dots_received g"
    by (cases failure) (simp_all add: connect_serial_def Let_def)
  show "0 \<le> calibration_dots_received (fst (disconnect_serial now g))"
    by (simp add: disconnect_serial_def Let_def)
  show "0 \<le> calibration_dots_received (fst (process_serial_message clk msg g))"
    if "0 \<le> calibration_dots_received g"
    using that by (simp add: psm_dots)
  show "0 \<le> calibration_dots_received (snd (fst (fst (read_byte clk b (buf, g)))))"
    if "0 \<le> calibration_dots_received g"
  proof (cases "b = LF \<or> b = CR")
    case True
    then show ?thesis
      using that by (simp add: read_byte_terminator psm_dots)
  next
    case False
    then show ?thesis
      using that
      by (cases "b = CHR ''.'' \<and> sublist ''calibrating sensor'' (buf @ ''.'')")
         (auto simp: read_byte_dot read_byte_other split: sum.splits)
  qed
qed

text \<open>
  Within the doubles the division of the counter by 30 does not raise, and the progress
  published is the code's expression in double arithmetic: two roundings.
\<close>

lemma update_calibration_progress_value:
  assumes "0 < d" and "d \<le> 2 ^ 1024"
  shows "update_calibration_progress (g\<lparr>calibration_dots_received := d\<rparr>) =
     Inr [Calibration_progress (min 100 (round_double (round_double (of_int d / 30) * 100)))
            (max 0 (30 - d)) True (Some d)]"
  using assms
  by (simp add: update_calibration_progress_def total_calibration_time_def int_truediv_30)

lemma progress_clamped:
  assumes "30 \<le> d"
  shows "min 100 (round_double (round_double (of_int d / 30) * 100)) = 100"
proof -
  have "(1 :: rat) \<le> of_int d / 30"
    using assms by simp
  from round_double_mono [OF this] have "1 \<le> round_double (of_int d / 30)"
    by (simp add: round_double_exact)
  then have "(100 :: rat) \<le> round_double (of_int d / 30) * 100"
    by simp
  from round_double_mono [OF this] have "100 \<le> round_double (round_double (of_int d / 30) * 100)"
    by (simp add: round_double_exact)
  then show ?thesis by simp
qed

lemma progress_mono:
  assumes "d \<le> d'"
  shows "min 100 (round_double (round_double (of_int d / 30) * 100)) \<le>
         min 100 (round_double (round_double (of_int d' / 30) * 100))"
proof -
  have "(of_int d :: rat) / 30 \<le> of_int d' / 30"
    using assms by simp
  from round_double_mono [OF this]
  have "round_double (of_int d / 30) * 100 \<le> round_double (of_int d' / 30) * 100"
    by simp
  from round_double_mono [OF this] show ?thesis
    by (rule min.mono [OF order_refl])
qed

text \<open>
  C4. When a dot is counted, the counter was not negative and the new count d lies
  within the doubles (at most 2 ^ 1024), the notification published has progress =
  min(100, d / 30 * 100) as Python computes it in doubles (the quotient rounded, then
  the product rounded), remaining = max(0, 30 - d), active true and d as dots; above 30
  dots it is progress 100 and remaining 0; and a larger count never gives a smaller
  progress (nor a larger remaining).
\<close>

theorem calibration_progress_published:
  assumes "sublist ''calibrating sensor'' (buf @ ''.'')"
    and "0 \<le> calibration_dots_received g"
    and "d = calibration_dots_received g + 1"
    and "d \<le> 2 ^ 1024"
  shows "read_byte clk CHR ''.'' (buf, g) =
           (((buf @ ''.'', g\<lparr>calibration_dots_received := d\<rparr>),
             [Calibration_progress (min 100 (round_double (round_double (of_int d / 30) * 100)))
                (max 0 (30 - d)) True (Some d)]), None) \<and>
         (30 < d \<longrightarrow>
            update_calibration_progress (g\<lparr>calibration_dots_received := d\<rparr>) =
              Inr [Calibration_progress 100 0 True (Some d)]) \<and>
         (\<forall>d'. d \<le> d' \<and> d' \<le> 2 ^ 1024 \<longrightarrow>
            (\<exists>p r p' r'.
               update_calibration_progress (g\<lparr>calibration_dots_received := d\<rparr>) =
                 Inr [Calibration_progress p r True (Some d)] \<and>
               update_calibration_progress (g\<lparr>calibration_dots_received := d'\<rparr>) =
                 Inr [Calibration_progress p' r' True (Some d')] \<and>
               p \<le> p' \<and> r' \<le> r))"
proof (intro conjI allI impI)
  from assms have pos: "0 < d" by simp
  note v = update_calibration_progress_value [OF pos assms(4), of g]
  show "read_byte clk CHR ''.'' (buf, g) =
           (((buf @ ''.'', g\<lparr>calibration_dots_received := d\<rparr>),
             [Calibration_progress (min 100 (round_double (round_double (of_int d / 30) * 100)))
                (max 0 (30 - d)) True (Some d)]), None)"
    using assms(1,3) v by (simp add: read_byte_dot)
  show "update_calibration_progress (g\<lparr>calibration_dots_received := d\<rparr>) =
      Inr [Calibration_progress 100 0 True (Some d)]" if "30 < d"
    using that v progress_clamped [of d] by simp
  show "\<exists>p r p' r'.
               update_calibration_progress (g\<lparr>calibration_dots_received := d\<rparr>) =
                 Inr [Calibration_progress p r True (Some d)] \<and>
               update_calibration_progress (g\<lparr>calibration_dots_received := d'\<rparr>) =
                 Inr [Calibration_progress p' r' True (Some d')] \<and>
               p \<le> p' \<and> r' \<le> r" if "d \<le> d' \<and> d' \<le> 2 ^ 1024" for d'
  proof -
    from that pos have pos': "0 < d'" and le: "d \<le> d'" and b': "d' \<le> 2 ^ 1024"
      by simp_all
    note v' = update_calibration_progress_value [OF pos' b', of g]
    have "max 0 (30 - d') \<le> max 0 (30 - d)"
      using le by simp
    with progress_mono [OF le] show ?thesis
      unfolding v v' by blast
  qed
qed

text \<open>
  The 45th dot publishes progress 100 and remaining 0; 12 dots give 40 and 18, and one
  dot the double 3.3333333333333335.
\<close>

theorem calibration_progress_published_witness:
  "sublist ''calibrating sensor'' ''calibrating sensor.'' \<and>
   read_byte clk0 CHR ''.'' (''calibrating sensor'', connected_globals\<lparr>calibration_dots_received := 44\<rparr>) =
     (((''calibrating sensor.'', connected_globals\<lparr>calibration_dots_received := 45\<rparr>),
       [Calibration_progress 100 0 True (Some 45)]), None) \<and>
   update_calibration_progress (connected_globals\<lparr>calibration_dots_received := 45\<rparr>) =
     Inr [Calibration_progress 100 0 True (Some 45)] \<and>
   update_calibration_progress (connected_globals\<lparr>calibration_dots_received := 12\<rparr>) =
     Inr [Calibration_progress 40 18 True (Some 12)] \<and>
   update_calibration_progress (connected_globals\<lparr>calibration_dots_received := 1\<rparr>) =
     Inr [Calibration_progress (7505999378950827 / 2251799813685248) 29 True (Some 1)]"
proof -
  have s: "sublist ''calibrating sensor'' (''calibrating sensor'' @ ''.'')"
    by simp
  have b: "(45 :: int) \<le> 2 ^ 1024"
    by simp
  have e: "update_calibration_progress (connected_globals\<lparr>calibration_dots_received := 12\<rparr>) =
     Inr [Calibration_progress 40 18 True (Some 12)]"
    "update_calibration_progress (connected_globals\<lparr>calibration_dots_received := 1\<rparr>) =
     Inr [Calibration_progress (7505999378950827 / 2251799813685248) 29 True (Some 1)]"
    by code_simp+
  have p: "min 100 (round_double (round_double (of_int 45 / 30) * 100)) = 100"
    by (rule progress_clamped) simp
  show ?thesis
    using calibration_progress_published [OF s _ _ b,
        of "connected_globals\<lparr>calibration_dots_received := 44\<rparr>" clk0] e p
    by (simp add: connected_globals_eq)
qed

section \<open>Chunks\<close>

text \<open>The reader never writes \<open>reading\<close> or \<open>ser\<close>, so its loop condition is stable.\<close>

lemma psm_keeps_port:
  "reading (fst (process_serial_message clk msg g)) = reading g \<and>
   ser (fst (process_serial_message clk msg g)) = ser g"
  by (cases "branch_taken msg") (simp_all add: psm_branch)

lemma read_byte_keeps_port:
  "reading (snd (fst (fst (read_byte clk b bg)))) = reading (snd bg) \<and>
   ser (snd (fst (fst (read_byte clk b bg)))) = ser (snd bg)"
  by (simp add: read_byte_def Let_def split_beta psm_keeps_port split: sum.splits)

lemma drain_Cons:
  "drain ((clk, b) # rest) bg =
     (case snd (read_byte clk b bg) of
        Some e \<Rightarrow> (fst (read_byte clk b bg), Some (clk, e))
      | None \<Rightarrow>
          ((fst (fst (drain rest (fst (fst (read_byte clk b bg))))),
            snd (fst (read_byte clk b bg)) @
            snd (fst (drain rest (fst (fst (read_byte clk b bg)))))),
           snd (drain rest (fst (fst (read_byte clk b bg))))))"
  by (simp add: split_beta split: prod.splits option.splits)

lemma drain_keeps_port:
  "reading (snd (fst (fst (drain bs bg)))) = reading (snd bg) \<and>
   ser (snd (fst (fst (drain bs bg)))) = ser (snd bg)"
proof (induction bs arbitrary: bg)
  case Nil
  then show ?case by simp
next
  case (Cons x bs)
  obtain clk b where x: "x = (clk, b)" by (cases x)
  show ?case
    using Cons.IH [of "fst (fst (read_byte clk b bg))"] read_byte_keeps_port [of clk b bg]
    unfolding x drain_Cons by (simp split: option.splits)
qed

lemma drain_append:
  "drain (xs @ ys) bg =
     (case snd (drain xs bg) of
        Some ce \<Rightarrow> drain xs bg
      | None \<Rightarrow>
          ((fst (fst (drain ys (fst (fst (drain xs bg))))),
            snd (fst (drain xs bg)) @ snd (fst (drain ys (fst (fst (drain xs bg)))))),
           snd (drain ys (fst (fst (drain xs bg))))))"
proof (induction xs arbitrary: bg)
  case Nil
  then show ?case by simp
next
  case (Cons x xs)
  obtain clk b where x: "x = (clk, b)" by (cases x)
  show ?case
    using Cons.IH [of "fst (fst (read_byte clk b bg))"]
    unfolding x append_Cons drain_Cons
    by (simp split: option.splits)
qed

lemma pump_Cons:
  "pump (chunk # chunks) bg =
     (if reading (snd bg) \<and> ser (snd bg) = Some True then
        (case snd (drain chunk bg) of
           Some ce \<Rightarrow>
             (fst (fst (drain chunk bg)),
              snd (fst (drain chunk bg)) @
              (if reading (snd (fst (fst (drain chunk bg))))
               then [log_event ''system''
                       (Text (''Serial read error: '' @ str_of_error (snd ce))) (t_log (fst ce))]
               else []))
         | None \<Rightarrow>
             (fst (pump chunks (fst (fst (drain chunk bg)))),
              snd (fst (drain chunk bg)) @ snd (pump chunks (fst (fst (drain chunk bg))))))
      else (bg, []))"
  by (simp add: split_beta split: prod.splits option.splits)

lemma pump_concat: "pump chunks bg = pump [concat chunks] bg"
proof (induction chunks arbitrary: bg)
  case Nil
  then show ?case by simp
next
  case (Cons chunk chunks)
  define r where "r = drain chunk bg"
  define r' where "r' = drain (concat chunks) (fst (fst r))"
  have app: "drain (chunk @ concat chunks) bg =
      (case snd r of Some ce \<Rightarrow> r
       | None \<Rightarrow> ((fst (fst r'), snd (fst r) @ snd (fst r')), snd r'))"
    unfolding r_def r'_def by (rule drain_append)
  have live: "reading (snd (fst (fst r))) = reading (snd bg)" "ser (snd (fst (fst r))) = ser (snd bg)"
    unfolding r_def by (simp_all add: drain_keeps_port)
  have IH: "pump chunks (fst (fst r)) = pump [concat chunks] (fst (fst r))"
    by (rule Cons.IH)
  have single: "pump [concat chunks] (fst (fst r)) =
     (if reading (snd bg) \<and> ser (snd bg) = Some True then
        (case snd r' of
           Some ce \<Rightarrow>
             (fst (fst r'),
              snd (fst r') @
              (if reading (snd (fst (fst r')))
               then [log_event ''system''
                       (Text (''Serial read error: '' @ str_of_error (snd ce))) (t_log (fst ce))]
               else []))
         | None \<Rightarrow> fst r')
      else (fst (fst r), []))"
    unfolding pump_Cons [of "concat chunks" "[]"] r'_def [symmetric] live
    by (simp split: option.splits)
  have lhs: "pump (chunk # chunks) bg =
     (if reading (snd bg) \<and> ser (snd bg) = Some True then
        (case snd r of
           Some ce \<Rightarrow>
             (fst (fst r),
              snd (fst r) @
              (if reading (snd (fst (fst r)))
               then [log_event ''system''
                       (Text (''Serial read error: '' @ str_of_error (snd ce))) (t_log (fst ce))]
               else []))
         | None \<Rightarrow>
             (fst (pump chunks (fst (fst r))), snd (fst r) @ snd (pump chunks (fst (fst r)))))
      else (bg, []))"
    unfolding r_def by (rule pump_Cons)
  have rhs: "pump [concat (chunk # chunks)] bg =
     (if reading (snd bg) \<and> ser (snd bg) = Some True then
        (case snd (drain (chunk @ concat chunks) bg) of
           Some ce \<Rightarrow>
             (fst (fst (drain (chunk @ concat chunks) bg)),
              snd (fst (drain (chunk @ concat chunks) bg)) @
              (if reading (snd (fst (fst (drain (chunk @ concat chunks) bg))))
               then [log_event ''system''
                       (Text (''Serial read error: '' @ str_of_error (snd ce))) (t_log (fst ce))]
               else []))
         | None \<Rightarrow> fst (drain (chunk @ concat chunks) bg))
      else (bg, []))"
    unfolding concat.simps pump_Cons [of "chunk @ concat chunks" "[]"]
    by (simp split: option.splits)
  show ?case
    unfolding lhs rhs app IH single
    by (cases "snd r"; cases "snd r'") (simp_all del: pump.simps)
qed

text \<open>
  C5. However the bytes are split into chunks over the wake-ups of the reader, the final
  buffer and globals and the whole sequence of notifications (so the sequence of lines
  handed to \<open>process_serial_message\<close>) are those of the same bytes read as one chunk.
\<close>

theorem chunk_boundary_independence:
  "pump chunks bg = pump [concat chunks] bg \<and>
   read_serial_data chunks g = read_serial_data [concat chunks] g"
  using pump_concat [of chunks bg] pump_concat [of chunks "([], g)"]
  by (simp only: read_serial_data_def)

section \<open>Line terminators\<close>

text \<open>A stripped line never ends in white space, so it never ends in its terminator.\<close>

lemma isspace_terminator: "isspace LF" "isspace CR"
  by (simp_all add: isspace_def LF_def CR_def)

lemma strip_last_not_space:
  assumes "strip s = xs @ [x]"
  shows "\<not> isspace x"
proof -
  from assms have "dropWhile isspace (rev (dropWhile isspace s)) = x # rev xs"
    by (simp add: strip_def rev_swap)
  then show ?thesis
    by (metis hd_dropWhile list.sel(1) list.distinct(1))
qed

lemma strip_terminated_differs:
  assumes "b = LF \<or> b = CR"
  shows "strip (buf @ [b]) \<noteq> buf @ [b]"
  using assms strip_last_not_space [of "buf @ [b]" buf b] isspace_terminator by auto

text \<open>
  C6. A terminator that leaves the stripped buffer empty publishes nothing, changes no
  global and empties the buffer: what follows is read as from an empty buffer.
\<close>

theorem empty_line_resets_buffer:
  assumes "b = LF \<or> b = CR" and "strip (buf @ [b]) = []"
  shows "read_byte clk b (buf, g) = ((([], g), []), None) \<and>
         drain ((clk, b) # rest) (buf, g) = drain rest ([], g)"
  using assms by (simp add: read_byte_terminator split_beta)

text \<open>A space, a tab and CR, then the line "sensor active".\<close>

theorem empty_line_resets_buffer_witness:
  "strip ([CHR '' '', CHR 0x09] @ [CR]) = [] \<and>
   read_byte clk0 CR ([CHR '' '', CHR 0x09], connected_globals) =
     ((([], connected_globals), []), None) \<and>
   drain ((clk0, CR) # map (Pair clk1) (''sensor active'' @ [LF]))
       ([CHR '' '', CHR 0x09], connected_globals) =
     ((([], connected_globals),
       [Serial_data ''sensor active'' 3500000, Sensor_status ''active'',
        Calibration_progress 100 0 False None,
        Log_update ''system''
          (Text (check_mark @ '' Sensor active and armed - Ready for detection'')) 3500030 None]),
      None)"
proof -
  have s: "strip ([CHR '' '', CHR 0x09] @ [CR]) = []"
    by code_simp
  have d: "drain (map (Pair clk1) (''sensor active'' @ [LF])) ([], connected_globals) =
     ((([], connected_globals),
       [Serial_data ''sensor active'' 3500000, Sensor_status ''active'',
        Calibration_progress 100 0 False None,
        Log_update ''system''
          (Text (check_mark @ '' Sensor active and armed - Ready for detection'')) 3500030 None]),
      None)"
    by code_simp
  show ?thesis
    using empty_line_resets_buffer [OF _ s, of clk0 connected_globals
        "map (Pair clk1) (''sensor active'' @ [LF])"] s d
    by simp
qed

lemma psm_one_serial_data:
  "\<exists>rest. snd (process_serial_message clk msg g) = Serial_data msg (t_entry clk) # rest \<and>
     (\<forall>m t. Serial_data m t \<notin> set rest)"
  by (cases "branch_taken msg") (simp_all add: psm_branch)

text \<open>
  C8 (amended). A terminator that leaves the stripped buffer non-empty publishes exactly
  one serial_data notification, first of all, whose message is the stripped line, with
  the clock reading taken on entry; the stripped line is never the buffer as accumulated.
\<close>

theorem serial_data_carries_trimmed_line:
  assumes "b = LF \<or> b = CR" and "strip (buf @ [b]) \<noteq> []"
  shows "(\<exists>rest. snd (fst (read_byte clk b (buf, g))) =
              Serial_data (strip (buf @ [b])) (t_entry clk) # rest \<and>
            (\<forall>m t. Serial_data m t \<notin> set rest)) \<and>
         strip (buf @ [b]) \<noteq> buf @ [b]"
  using assms psm_one_serial_data [of clk "strip (buf @ [b])" g] strip_terminated_differs [of b buf]
  by (simp add: read_byte_terminator)

text \<open>The buffer " hi " and LF publish the message "hi".\<close>

theorem serial_data_carries_trimmed_line_witness:
  "strip ('' hi '' @ [LF]) = ''hi'' \<and>
   snd (fst (read_byte clk0 LF ('' hi '', connected_globals))) =
     [Serial_data ''hi'' 1000000, Log_update ''system'' (Text ''Arduino: hi'') 1000030 None]"
proof -
  have s: "strip ('' hi '' @ [LF]) = ''hi''"
    by code_simp
  then have n: "strip ('' hi '' @ [LF]) \<noteq> []"
    by simp
  have "snd (fst (read_byte clk0 LF ('' hi '', connected_globals))) =
     [Serial_data ''hi'' 1000000, Log_update ''system'' (Text ''Arduino: hi'') 1000030 None]"
    by code_simp
  then show ?thesis
    using serial_data_carries_trimmed_line [OF _ n, of clk0 connected_globals] s by simp
qed

text \<open>
  C8 as stated fails: for the buffer " hi " and LF the message is "hi", neither " hi " nor
  " hi " with its terminator.
\<close>

theorem untrimmed_line_counterexample:
  "snd (fst (read_byte clk0 LF ('' hi '', connected_globals))) =
     [Serial_data ''hi'' 1000000, Log_update ''system'' (Text ''Arduino: hi'') 1000030 None] \<and>
   Serial_data '' hi '' 1000000 \<notin>
     set (snd (fst (read_byte clk0 LF ('' hi '', connected_globals)))) \<and>
   Serial_data ('' hi '' @ [LF]) 1000000 \<notin>
     set (snd (fst (read_byte clk0 LF ('' hi '', connected_globals))))"
  by code_simp

section \<open>Disconnecting\<close>

text \<open>
  C9. \<open>disconnect_serial\<close> has no failing branch; in every state it publishes the
  disconnected status, the calibration progress 0 with 30 remaining and inactive, and
  the system log entry, in this order. A second call publishes the same sequence (the
  log entry stamped with the clock of its call) and leaves the globals as the first did.
\<close>

theorem disconnect_idempotent:
  "snd (disconnect_serial now g) =
     [Serial_status ''disconnected'' None, Calibration_progress 0 30 False None,
      Log_update ''system'' (Text ''Disconnected from Arduino'') now None] \<and>
   snd (disconnect_serial now (fst (disconnect_serial now' g))) = snd (disconnect_serial now g) \<and>
   fst (disconnect_serial now (fst (disconnect_serial now' g))) = fst (disconnect_serial now' g) \<and>
   \<not> reading (fst (disconnect_serial now g)) \<and>
   \<not> serial_connected (fst (disconnect_serial now g)) \<and>
   ser (fst (disconnect_serial now g)) \<noteq> Some True"
  by (simp add: disconnect_serial_def log_event_def total_calibration_time_def Let_def)

section \<open>The calibration scenario\<close>

text \<open>Bytes that are neither terminators nor full stops only extend the buffer.\<close>

lemma drain_plain:
  "\<forall>b\<in>set s. (of_char b :: nat) < 128 \<and> b \<noteq> LF \<and> b \<noteq> CR \<and> b \<noteq> CHR ''.'' \<Longrightarrow>
   drain (map (Pair c) s) (buf, g) = (((buf @ s, g), []), None)"
proof (induction s arbitrary: buf)
  case Nil
  then show ?case by simp
next
  case (Cons b s)
  then have "read_byte c b (buf, g) = (((buf @ [b], g), []), None)"
    by (simp add: read_byte_other decode_ignore_def)
  with Cons show ?case by simp
qed

lemma drain_step:
  assumes "read_byte clk b bg = ((bg', out), None)"
  shows "drain ((clk, b) # rest) bg =
     ((fst (fst (drain rest bg')), out @ snd (fst (drain rest bg'))), snd (drain rest bg'))"
  using assms by (simp add: split_beta)

lemma drain_then:
  assumes "drain xs bg = ((bg', out), None)"
  shows "drain (xs @ ys) bg =
     ((fst (fst (drain ys bg')), out @ snd (fst (drain ys bg'))), snd (drain ys bg'))"
  using assms by (simp add: drain_append)

lemma read_serial_data_single:
  assumes "reading g" and "ser g = Some True" and "drain chunk ([], g) = ((bg', out), None)"
  shows "read_serial_data [chunk] g = (snd bg', out)"
  using assms by (simp add: read_serial_data_def)

lemma plain_texts:
  "\<forall>b\<in>set ''calibrating sensor''. (of_char b :: nat) < 128 \<and> b \<noteq> LF \<and> b \<noteq> CR \<and> b \<noteq> CHR ''.''"
  "\<forall>b\<in>set ''CALIBRATING SENSOR''. (of_char b :: nat) < 128 \<and> b \<noteq> LF \<and> b \<noteq> CR \<and> b \<noteq> CHR ''.''"
  "\<forall>b\<in>set ''sensor active''. (of_char b :: nat) < 128 \<and> b \<noteq> LF \<and> b \<noteq> CR \<and> b \<noteq> CHR ''.''"
  by (simp_all add: LF_def CR_def)

lemma scenario_lines:
  "strip (''calibrating sensor....'' @ [LF]) = ''calibrating sensor....''"
  "strip (''CALIBRATING SENSOR....'' @ [LF]) = ''CALIBRATING SENSOR....''"
  "strip (''sensor active'' @ [LF]) = ''sensor active''"
  "branch_taken ''calibrating sensor....'' = CalibrationStart"
  "branch_taken ''CALIBRATING SENSOR....'' = CalibrationStart"
  "branch_taken ''sensor active'' = SensorActive"
  by code_simp+

lemma upper_no_marker:
  "\<not> sublist ''calibrating sensor'' ''CALIBRATING SENSOR.''"
  "\<not> sublist ''calibrating sensor'' ''CALIBRATING SENSOR..''"
  "\<not> sublist ''calibrating sensor'' ''CALIBRATING SENSOR...''"
  "\<not> sublist ''calibrating sensor'' ''CALIBRATING SENSOR....''"
  by code_simp+

lemma read_byte_line:
  assumes "b = LF \<or> b = CR" and "strip (buf @ [b]) = line" and "line \<noteq> []"
  shows "read_byte clk b (buf, g) =
     ((([], fst (process_serial_message clk line g)), snd (process_serial_message clk line g)),
      None)"
  using assms by (simp add: read_byte_terminator)

lemma sensor_active_line:
  "drain (map (Pair c) ''sensor active'' @ [(c2, LF)]) ([], g) =
     ((([], g),
       [Serial_data ''sensor active'' (t_entry c2), Sensor_status ''active'',
        Calibration_progress 100 0 False None,
        Log_update ''system''
          (Text (check_mark @ '' Sensor active and armed - Ready for detection'')) (t_log c2) None]),
      None)"
proof -
  have a: "drain (map (Pair c) ''sensor active'') ([], g) = (((''sensor active'', g), []), None)"
    by (simp only: drain_plain [OF plain_texts(3)] append_Nil)
  have b: "read_byte c2 LF (''sensor active'', g) =
     ((([], g),
       [Serial_data ''sensor active'' (t_entry c2), Sensor_status ''active'',
        Calibration_progress 100 0 False None,
        Log_update ''system''
          (Text (check_mark @ '' Sensor active and armed - Ready for detection'')) (t_log c2) None]),
      None)"
    using read_byte_line [OF _ scenario_lines(3), of c2 g]
    by (simp add: psm_active [OF scenario_lines(6)])
  show ?thesis
    by (simp only: drain_then [OF a] drain_step [OF b] drain.simps(1) fst_conv snd_conv
        append_Nil append_Nil2)
qed

lemma progress_step:
  assumes "sublist ''calibrating sensor'' (buf @ ''.'')" and "0 \<le> k" and "k + 1 \<le> 2 ^ 1024"
  shows "read_byte c CHR ''.'' (buf, g\<lparr>calibration_dots_received := k\<rparr>) =
     (((buf @ ''.'', g\<lparr>calibration_dots_received := k + 1\<rparr>),
       [Calibration_progress (min 100 (round_double (round_double (of_int (k + 1) / 30) * 100)))
          (max 0 (30 - (k + 1))) True (Some (k + 1))]), None)"
proof -
  from assms(2) have "0 < k + 1" by simp
  from update_calibration_progress_value [OF this assms(3), of g] assms(1) show ?thesis
    by (simp add: read_byte_dot)
qed

lemma four_dots_counted:
  assumes "0 \<le> d" and "d + 4 \<le> 2 ^ 1024"
  shows "drain (map (Pair c) ''....'') (''calibrating sensor'', g\<lparr>calibration_dots_received := d\<rparr>) =
     (((''calibrating sensor....'', g\<lparr>calibration_dots_received := d + 4\<rparr>),
       [Calibration_progress (min 100 (round_double (round_double (of_int (d + 1) / 30) * 100)))
          (max 0 (30 - (d + 1))) True (Some (d + 1)),
        Calibration_progress (min 100 (round_double (round_double (of_int (d + 2) / 30) * 100)))
          (max 0 (30 - (d + 2))) True (Some (d + 2)),
        Calibration_progress (min 100 (round_double (round_double (of_int (d + 3) / 30) * 100)))
          (max 0 (30 - (d + 3))) True (Some (d + 3)),
        Calibration_progress (min 100 (round_double (round_double (of_int (d + 4) / 30) * 100)))
          (max 0 (30 - (d + 4))) True (Some (d + 4))]), None)"
proof -
  have e: "d + 1 + 1 = d + 2" "d + 2 + 1 = d + 3" "d + 3 + 1 = d + 4"
    by simp_all
  have n: "0 \<le> d + 1" "0 \<le> d + 2" "0 \<le> d + 3"
    using assms by simp_all
  have u: "d + 1 \<le> 2 ^ 1024" "d + 1 + 1 \<le> 2 ^ 1024" "d + 2 + 1 \<le> 2 ^ 1024"
    "d + 3 + 1 \<le> 2 ^ 1024"
    using assms by simp_all
  have m: "sublist ''calibrating sensor'' (''calibrating sensor'' @ ''.'')"
    "sublist ''calibrating sensor'' (''calibrating sensor.'' @ ''.'')"
    "sublist ''calibrating sensor'' (''calibrating sensor..'' @ ''.'')"
    "sublist ''calibrating sensor'' (''calibrating sensor...'' @ ''.'')"
    by (simp_all add: sublist_Cons_right)
  note s1 = progress_step [OF m(1) assms(1) u(1), of c g, simplified append.simps]
  note s2 = progress_step [OF m(2) n(1) u(2), of c g, unfolded e, simplified append.simps]
  note s3 = progress_step [OF m(3) n(2) u(3), of c g, unfolded e, simplified append.simps]
  note s4 = progress_step [OF m(4) n(3) u(4), of c g, unfolded e, simplified append.simps]
  show ?thesis
    by (simp only: list.map drain_step [OF s1] drain_step [OF s2] drain_step [OF s3]
        drain_step [OF s4] drain.simps(1) fst_conv snd_conv append_Nil2 append.simps)
qed

lemma first_line_lower:
  assumes "0 \<le> d" and "d + 4 \<le> 2 ^ 1024"
  shows "drain (map (Pair c) ''calibrating sensor....'' @ [(c1, LF)])
           ([], g\<lparr>calibration_dots_received := d\<rparr>) =
     ((([], g\<lparr>calibration_start_time := Some (t_branch c1), calibration_dots_received := 0\<rparr>),
       [Calibration_progress (min 100 (round_double (round_double (of_int (d + 1) / 30) * 100)))
          (max 0 (30 - (d + 1))) True (Some (d + 1)),
        Calibration_progress (min 100 (round_double (round_double (of_int (d + 2) / 30) * 100)))
          (max 0 (30 - (d + 2))) True (Some (d + 2)),
        Calibration_progress (min 100 (round_double (round_double (of_int (d + 3) / 30) * 100)))
          (max 0 (30 - (d + 3))) True (Some (d + 3)),
        Calibration_progress (min 100 (round_double (round_double (of_int (d + 4) / 30) * 100)))
          (max 0 (30 - (d + 4))) True (Some (d + 4)),
        Serial_data ''calibrating sensor....'' (t_entry c1), Sensor_status ''calibrating'',
        Log_update ''system'' (Text ''Sensor calibration started...'') (t_log c1) None]), None)"
proof -
  have split: "map (Pair c) ''calibrating sensor....'' @ [(c1, LF)] =
      map (Pair c) ''calibrating sensor'' @ map (Pair c) ''....'' @ [(c1, LF)]"
    by simp
  have a: "drain (map (Pair c) ''calibrating sensor'') ([], g\<lparr>calibration_dots_received := d\<rparr>) =
      (((''calibrating sensor'', g\<lparr>calibration_dots_received := d\<rparr>), []), None)"
    by (simp only: drain_plain [OF plain_texts(1)] append_Nil)
  have b: "read_byte c1 LF (''calibrating sensor....'', g\<lparr>calibration_dots_received := d + 4\<rparr>) =
     ((([], g\<lparr>calibration_start_time := Some (t_branch c1), calibration_dots_received := 0\<rparr>),
       [Serial_data ''calibrating sensor....'' (t_entry c1), Sensor_status ''calibrating'',
        Log_update ''system'' (Text ''Sensor calibration started...'') (t_log c1) None]), None)"
    using read_byte_line [OF _ scenario_lines(1), of c1 "g\<lparr>calibration_dots_received := d + 4\<rparr>"]
    by (simp add: psm_calibration [OF scenario_lines(4)])
  show ?thesis
    unfolding split
    by (simp only: drain_then [OF a] drain_then [OF four_dots_counted [OF assms]]
        drain_step [OF b] drain.simps(1) fst_conv snd_conv append_Nil append_Nil2 append.simps)
qed

lemma first_line_upper:
  "drain (map (Pair c) ''CALIBRATING SENSOR....'' @ [(c1, LF)]) ([], g) =
     ((([], g\<lparr>calibration_start_time := Some (t_branch c1), calibration_dots_received := 0\<rparr>),
       [Serial_data ''CALIBRATING SENSOR....'' (t_entry c1), Sensor_status ''calibrating'',
        Log_update ''system'' (Text ''Sensor calibration started...'') (t_log c1) None]), None)"
proof -
  have split: "map (Pair c) ''CALIBRATING SENSOR....'' @ [(c1, LF)] =
      map (Pair c) ''CALIBRATING SENSOR'' @ [(c, CHR ''.''), (c, CHR ''.''), (c, CHR ''.''), (c, CHR ''.''), (c1, LF)]"
    by simp
  have a: "drain (map (Pair c) ''CALIBRATING SENSOR'') ([], g) = (((''CALIBRATING SENSOR'', g), []), None)"
    by (simp only: drain_plain [OF plain_texts(2)] append_Nil)
  have dot: "CHR ''.'' \<noteq> LF" "CHR ''.'' \<noteq> CR"
    by (simp_all add: LF_def CR_def)
  have s1: "read_byte c CHR ''.'' (''CALIBRATING SENSOR'', g) = (((''CALIBRATING SENSOR.'', g), []), None)"
    using read_byte_other [OF dot, of "''CALIBRATING SENSOR''" c g] upper_no_marker(1)
    by (simp add: decode_ignore_ascii)
  have s2: "read_byte c CHR ''.'' (''CALIBRATING SENSOR.'', g) = (((''CALIBRATING SENSOR..'', g), []), None)"
    using read_byte_other [OF dot, of "''CALIBRATING SENSOR.''" c g] upper_no_marker(2)
    by (simp add: decode_ignore_ascii)
  have s3: "read_byte c CHR ''.'' (''CALIBRATING SENSOR..'', g) = (((''CALIBRATING SENSOR...'', g), []), None)"
    using read_byte_other [OF dot, of "''CALIBRATING SENSOR..''" c g] upper_no_marker(3)
    by (simp add: decode_ignore_ascii)
  have s4: "read_byte c CHR ''.'' (''CALIBRATING SENSOR...'', g) = (((''CALIBRATING SENSOR....'', g), []), None)"
    using read_byte_other [OF dot, of "''CALIBRATING SENSOR...''" c g] upper_no_marker(4)
    by (simp add: decode_ignore_ascii)
  have b: "read_byte c1 LF (''CALIBRATING SENSOR....'', g) =
     ((([], g\<lparr>calibration_start_time := Some (t_branch c1), calibration_dots_received := 0\<rparr>),
       [Serial_data ''CALIBRATING SENSOR....'' (t_entry c1), Sensor_status ''calibrating'',
        Log_update ''system'' (Text ''Sensor calibration started...'') (t_log c1) None]), None)"
    using read_byte_line [OF _ scenario_lines(2), of c1 g]
    by (simp add: psm_calibration [OF scenario_lines(5)])
  show ?thesis
    unfolding split
    by (simp only: drain_then [OF a] drain_step [OF s1] drain_step [OF s2] drain_step [OF s3]
        drain_step [OF s4] drain_step [OF b] drain.simps(1)
        fst_conv snd_conv append_Nil append_Nil2 append.simps)
qed

text \<open>
  C7 (amended). On a live connection with a counter d that is not negative (and within
  the doubles), the lines "calibrating sensor...." and "sensor active" publish one
  calibration progress per full stop (counts d+1 to d+4) before the first terminator,
  then the notifications of the calibration start, then those of the active sensor with
  the final progress 100, 0 remaining, inactive. With the marker in upper case,
  "CALIBRATING SENSOR....", no progress is published per full stop: only the two lines'
  own notifications.
\<close>

theorem calibration_scenario:
  assumes "reading g" and "ser g = Some True" and "0 \<le> d" and "calibration_dots_received g = d"
    and "d + 4 \<le> 2 ^ 1024"
  shows "read_serial_data
           [(map (Pair c) ''calibrating sensor....'' @ [(c1, LF)]) @
            (map (Pair c) ''sensor active'' @ [(c2, LF)])] g =
     (g\<lparr>calibration_start_time := Some (t_branch c1), calibration_dots_received := 0\<rparr>,
      [Calibration_progress (min 100 (round_double (round_double (of_int (d + 1) / 30) * 100)))
         (max 0 (30 - (d + 1))) True (Some (d + 1)),
       Calibration_progress (min 100 (round_double (round_double (of_int (d + 2) / 30) * 100)))
         (max 0 (30 - (d + 2))) True (Some (d + 2)),
       Calibration_progress (min 100 (round_double (round_double (of_int (d + 3) / 30) * 100)))
         (max 0 (30 - (d + 3))) True (Some (d + 3)),
       Calibration_progress (min 100 (round_double (round_double (of_int (d + 4) / 30) * 100)))
         (max 0 (30 - (d + 4))) True (Some (d + 4)),
       Serial_data ''calibrating sensor....'' (t_entry c1), Sensor_status ''calibrating'',
       Log_update ''system'' (Text ''Sensor calibration started...'') (t_log c1) None,
       Serial_data ''sensor active'' (t_entry c2), Sensor_status ''active'',
       Calibration_progress 100 0 False None,
       Log_update ''system''
         (Text (check_mark @ '' Sensor active and armed - Ready for detection'')) (t_log c2) None]) \<and>
   read_serial_data
           [(map (Pair c) ''CALIBRATING SENSOR....'' @ [(c1, LF)]) @
            (map (Pair c) ''sensor active'' @ [(c2, LF)])] g =
     (g\<lparr>calibration_start_time := Some (t_branch c1), calibration_dots_received := 0\<rparr>,
      [Serial_data ''CALIBRATING SENSOR....'' (t_entry c1), Sensor_status ''calibrating'',
       Log_update ''system'' (Text ''Sensor calibration started...'') (t_log c1) None,
       Serial_data ''sensor active'' (t_entry c2), Sensor_status ''active'',
       Calibration_progress 100 0 False None,
       Log_update ''system''
         (Text (check_mark @ '' Sensor active and armed - Ready for detection'')) (t_log c2) None])"
proof -
  have g: "g = g\<lparr>calibration_dots_received := d\<rparr>"
    using assms(4) by simp
  note lower = first_line_lower [OF assms(3,5), of c c1 g, folded g]
  note low = drain_then [OF lower, of "map (Pair c) ''sensor active'' @ [(c2, LF)]",
      unfolded sensor_active_line fst_conv snd_conv]
  note up = drain_then [OF first_line_upper [of c c1 g],
      of "map (Pair c) ''sensor active'' @ [(c2, LF)]",
      unfolded sensor_active_line fst_conv snd_conv]
  show ?thesis
    by (simp only: read_serial_data_single [OF assms(1,2) low]
        read_serial_data_single [OF assms(1,2) up] snd_conv append.simps simp_thms)
qed

text \<open>
  On a fresh connection the four notifications carry the doubles 3.3333333333333335,
  6.666666666666667, 10.0 and 13.333333333333334.
\<close>

theorem calibration_scenario_witness:
  "read_serial_data
     [(map (Pair clk0) ''calibrating sensor....'' @ [(clk0, LF)]) @
      (map (Pair clk0) ''sensor active'' @ [(clk1, LF)])] connected_globals =
     (connected_globals\<lparr>calibration_start_time := Some 1000010\<rparr>,
      [Calibration_progress (7505999378950827 / 2251799813685248) 29 True (Some 1),
       Calibration_progress (7505999378950827 / 1125899906842624) 28 True (Some 2),
       Calibration_progress 10 27 True (Some 3),
       Calibration_progress (7505999378950827 / 562949953421312) 26 True (Some 4),
       Serial_data ''calibrating sensor....'' 1000000, Sensor_status ''calibrating'',
       Log_update ''system'' (Text ''Sensor calibration started...'') 1000030 None,
       Serial_data ''sensor active'' 3500000, Sensor_status ''active'',
       Calibration_progress 100 0 False None,
       Log_update ''system''
         (Text (check_mark @ '' Sensor active and armed - Ready for detection'')) 3500030 None])"
proof -
  have h: "reading connected_globals" "ser connected_globals = Some True"
    "calibration_dots_received connected_globals = 0"
    by (simp_all add: connected_globals_eq)
  have b: "(0 :: int) + 4 \<le> 2 ^ 1024"
    by simp
  have v: "min 100 (round_double (round_double (of_int (0 + 1) / 30) * 100)) =
      7505999378950827 / 2251799813685248"
    "min 100 (round_double (round_double (of_int (0 + 2) / 30) * 100)) =
      7505999378950827 / 1125899906842624"
    "min 100 (round_double (round_double (of_int (0 + 3) / 30) * 100)) = 10"
    "min 100 (round_double (round_double (of_int (0 + 4) / 30) * 100)) =
      7505999378950827 / 562949953421312"
    by code_simp+
  note t = calibration_scenario [OF h(1,2) order_refl h(3) b, of clk0 clk0 clk1, THEN conjunct1,
      unfolded v]
  show ?thesis
    using t by (simp add: clk0_def clk1_def connected_globals_eq del: map_append list.map)
qed

text \<open>
  C7 as stated fails: the lines "CALIBRATING SENSOR...." and "sensor active" publish no
  calibration progress before the final one.
\<close>

theorem uppercase_marker_counterexample:
  "read_serial_data
     [map (Pair clk0) (''CALIBRATING SENSOR....'' @ [LF]) @ map (Pair clk1) (''sensor active'' @ [LF])]
     connected_globals =
     (connected_globals\<lparr>calibration_start_time := Some 1000010\<rparr>,
      [Serial_data ''CALIBRATING SENSOR....'' 1000000, Sensor_status ''calibrating'',
       Log_update ''system'' (Text ''Sensor calibration started...'') 1000030 None,
       Serial_data ''sensor active'' 3500000, Sensor_status ''active'',
       Calibration_progress 100 0 False None,
       Log_update ''system''
         (Text (check_mark @ '' Sensor active and armed - Ready for detection'')) 3500030 None])"
  by code_simp

end
